theory Spec2Isabelle
  imports Main "HOL-Library.Word" "HOL-Library.Char_ord" "HOL-Library.List_Lexorder"
begin

section \<open>Data model\<close>

text \<open>
  The normalized record and the aggregate result of one search, field by field as the
  Go structs declare them. Go's \<open>int\<close> is modelled by \<open>int\<close>: the code only compares
  such values and adds 1 to the counters \<open>i\<close> and \<open>page\<close> of its two loops, which count
  upwards to a bound that is an \<open>int\<close> itself (the step past a bound \<open>maxPages\<close> equal to
  the largest \<open>int\<close> is left out). \<open>time.Duration\<close> is a signed 64-bit count of
  nanoseconds and is doubled by the retry loop, so it is a \<open>64 word\<close>, read with \<open>sint\<close>.
\<close>

record RepositorySummary =
  Name :: string
  FullName :: string
  Description :: string
  URL :: string
  Stars :: int
  Forks :: int
  Language :: string
  CreatedAt :: string
  UpdatedAt :: string
  IsPrivate :: bool
  IsFork :: bool
  IsArchived :: bool
  Topics :: "string list"
  License :: string
  OpenIssuesCount :: int

record SearchResult =
  Source :: string
  Query :: string
  TotalCount :: int
  Items :: "RepositorySummary list"

type_synonym duration = "64 word"

definition Millisecond :: duration where
  "Millisecond = 1000000"

definition Second :: duration where
  "Second = 1000000000"

text \<open>
  Errors are values. Each \<open>fmt.Errorf\<close> of the orchestration code is a constructor that
  keeps the wrapped error and the formatted arguments; \<open>ErrorNew\<close> is \<open>errors.New\<close> and
  also stands for the errors of the adapters and of the HTTP transport. The last
  constructor but one wraps \<open>lastErr\<close>, which is still \<open>nil\<close> when no attempt was made;
  the last one is the error of the adapters' \<open>buildSearchURL\<close>.
\<close>

datatype error =
    ErrorNew string
  | BuildURLFailed int error
  | FetchFirstPageFailed error
  | CreateRequestFailed error
  | RequestFailed error
  | ApiStatusFailed int string
  | FetchExhausted int "error option"
  | ParseBaseURLFailed error

text \<open>
  The context handed down by the caller (\<open>context.WithTimeout\<close> in \<open>main\<close>) is either
  the background context or one with a deadline on the clock of the run.
\<close>

datatype Context = Background | WithDeadline int

fun ctx_done :: "Context \<Rightarrow> int \<Rightarrow> bool" where
  "ctx_done Background t = False"
| "ctx_done (WithDeadline d) t = (d \<le> t)"

record request =
  req_ctx :: Context
  req_method :: string
  req_url :: string
  req_header :: "(string \<times> string) list"

text \<open>
  A response of the HTTP client: the client guarantees a non-nil body, here the bytes
  that can be read from it.
\<close>

record response =
  StatusCode :: int
  Body :: string

text \<open>The three primitive operations an adapter provides.\<close>

record RepoSearcher =
  buildSearchURL :: "string \<Rightarrow> int \<Rightarrow> int \<Rightarrow> error + string"
  buildSearchRequest :: "Context \<Rightarrow> string \<Rightarrow> error + request"
  parseSearchResponse :: "string \<Rightarrow> error + (RepositorySummary list \<times> int \<times> bool)"

text \<open>
  \<open>HTTPClient\<close> answers the \<open>n\<close>-th call of \<open>Do\<close> of a run (counted from 0) for the request
  it is given: a transport error or a response. The field \<open>Source\<close> of the Go struct is
  \<open>SourceName\<close> here, the name \<open>Source\<close> being taken by the result. \<open>NewBaseRepoSearcher\<close>
  leaves \<open>Source\<close> and \<open>BaseURL\<close> empty and sets the retry policy; the client it is given
  or, for a nil client, the default client it makes is the \<open>client\<close> here.
\<close>

record BaseRepoSearcher =
  implementation :: RepoSearcher
  HTTPClient :: "nat \<Rightarrow> request \<Rightarrow> error + response"
  Token :: string
  SourceName :: string
  BaseURL :: string
  MaxRetries :: int
  RetryDelay :: duration

definition NewBaseRepoSearcher ::
  "RepoSearcher \<Rightarrow> string \<Rightarrow> (nat \<Rightarrow> request \<Rightarrow> error + response) \<Rightarrow> BaseRepoSearcher" where
  "NewBaseRepoSearcher impl token client =
     \<lparr>implementation = impl, HTTPClient = client, Token = token, SourceName = [],
      BaseURL = [], MaxRetries = 3, RetryDelay = 1 * Second\<rparr>"

section \<open>Effects\<close>

text \<open>
  What the code does to the outside is recorded in a world that is passed along: the
  number of HTTP calls made, a clock in nanoseconds that only \<open>time.Sleep\<close> advances,
  and the trace of log lines, sleeps, HTTP calls and closed bodies in program order.
\<close>

datatype logmsg =
    LogFetching int string
  | LogFetchWarning int error
  | LogParseWarning int error
  | LogNoMore int
  | LogAttemptFailed int int error duration
  | LogAttemptStatus int int int duration

datatype event = Log logmsg | Sleep duration | Do request | Close string

record world =
  calls :: nat
  clock :: int
  trace :: "event list"

definition log_Printf :: "logmsg \<Rightarrow> world \<Rightarrow> world" where
  "log_Printf m w = w\<lparr>trace := trace w @ [Log m]\<rparr>"

text \<open>
  \<open>time.Sleep d\<close> takes a duration and no context. It pauses for \<open>d\<close>, and returns at once
  when \<open>d\<close> is zero or negative: \<open>slept d\<close> is the time it takes.
\<close>

definition slept :: "duration \<Rightarrow> int" where
  "slept d = (if 0 < sint d then sint d else 0)"

definition time_Sleep :: "duration \<Rightarrow> world \<Rightarrow> world" where
  "time_Sleep d w = w\<lparr>clock := clock w + slept d, trace := trace w @ [Sleep d]\<rparr>"

definition client_Do :: "BaseRepoSearcher \<Rightarrow> request \<Rightarrow> world \<Rightarrow> (error + response) \<times> world" where
  "client_Do s req w =
     (HTTPClient s (calls w) req, w\<lparr>calls := Suc (calls w), trace := trace w @ [Do req]\<rparr>)"

definition body_Close :: "string \<Rightarrow> world \<Rightarrow> world" where
  "body_Close b w = w\<lparr>trace := trace w @ [Close b]\<rparr>"

section \<open>The Retrying Fetcher\<close>

text \<open>
  \<open>fetchWithRetries\<close>: the loop is \<open>fetch_loop\<close>, with the loop variables \<open>i\<close>, \<open>lastErr\<close>
  and \<open>delay\<close> as arguments. The result is the error or the body; the body is an option
  because the caller tests it against \<open>nil\<close>.
\<close>

function fetch_loop ::
  "BaseRepoSearcher \<Rightarrow> Context \<Rightarrow> string \<Rightarrow> int \<Rightarrow> error option \<Rightarrow> duration \<Rightarrow> world
     \<Rightarrow> (error + string option) \<times> world" where
  "fetch_loop s ctx url i lastErr delay w =
     (if i < MaxRetries s then
        (case buildSearchRequest (implementation s) ctx url of
           Inl err \<Rightarrow> (Inl (CreateRequestFailed err), w)
         | Inr req \<Rightarrow>
             (case client_Do s req w of
                (Inl err, w1) \<Rightarrow>
                  fetch_loop s ctx url (i + 1) (Some (RequestFailed err)) (delay * 2)
                    (time_Sleep delay
                       (log_Printf (LogAttemptFailed (i + 1) (MaxRetries s) err delay) w1))
              | (Inr resp, w1) \<Rightarrow>
                  if StatusCode resp = 200 then (Inr (Some (Body resp)), w1)
                  else
                    let w2 = body_Close (Body resp) w1;
                        statusErr = ApiStatusFailed (StatusCode resp) (Body resp)
                    in if StatusCode resp = 401 \<or> StatusCode resp = 403 \<or> StatusCode resp = 404
                       then (Inl statusErr, w2)
                       else fetch_loop s ctx url (i + 1) (Some statusErr) (delay * 2)
                              (time_Sleep delay
                                 (log_Printf
                                    (LogAttemptStatus (i + 1) (MaxRetries s) (StatusCode resp) delay)
                                    w2))))
      else (Inl (FetchExhausted (MaxRetries s) lastErr), w))"
  by pat_completeness auto
termination
  by (relation "measure (\<lambda>(s, ctx, url, i, lastErr, delay, w). nat (MaxRetries s - i))") auto

declare fetch_loop.simps [simp del]

definition fetchWithRetries ::
  "BaseRepoSearcher \<Rightarrow> Context \<Rightarrow> string \<Rightarrow> world \<Rightarrow> (error + string option) \<times> world" where
  "fetchWithRetries s ctx url w = fetch_loop s ctx url 0 None (RetryDelay s) w"

section \<open>The Search Orchestrator\<close>

text \<open>
  One pass through the body of the page loop of \<open>Search\<close> ends in one of three ways: the
  function returns an error, the loop is left by \<open>break\<close>, or control reaches \<open>page++\<close>
  (at the end of the body or by \<open>continue\<close>). \<open>search_page\<close> is that body; it returns the
  way it ended with the loop variables \<open>allRepos\<close> and \<open>totalCount\<close> and the world.
\<close>

datatype flow = Returned error | Broke | Continued

definition perPage :: int where
  "perPage = 50"

definition search_page ::
  "BaseRepoSearcher \<Rightarrow> Context \<Rightarrow> string \<Rightarrow> int \<Rightarrow> int \<Rightarrow> RepositorySummary list \<Rightarrow> int \<Rightarrow> world
     \<Rightarrow> flow \<times> RepositorySummary list \<times> int \<times> world" where
  "search_page s ctx query maxPages page allRepos totalCount w =
     (case buildSearchURL (implementation s) query page perPage of
        Inl err \<Rightarrow> (Returned (BuildURLFailed page err), allRepos, totalCount, w)
      | Inr url \<Rightarrow>
          (case fetchWithRetries s ctx url (log_Printf (LogFetching page url) w) of
             (Inl err, w1) \<Rightarrow>
               if page = 1 then (Returned (FetchFirstPageFailed err), allRepos, totalCount, w1)
               else (Broke, allRepos, totalCount, log_Printf (LogFetchWarning page err) w1)
           | (Inr None, w1) \<Rightarrow> (Continued, allRepos, totalCount, w1)
           | (Inr (Some body), w1) \<Rightarrow>
               (case parseSearchResponse (implementation s) body of
                  Inl err \<Rightarrow>
                    (Broke, allRepos, totalCount,
                     body_Close body (log_Printf (LogParseWarning page err) w1))
                | Inr (repos, tc, hasMore) \<Rightarrow>
                    let w2 = body_Close body w1;
                        totalCount' = (if page = 1 then tc else totalCount);
                        allRepos' = allRepos @ repos
                    in if \<not> hasMore \<or> length repos = 0
                       then (Broke, allRepos', totalCount', log_Printf (LogNoMore page) w2)
                       else (Continued, allRepos', totalCount',
                             if page < maxPages then time_Sleep (100 * Millisecond) w2 else w2))))"

definition mk_result :: "BaseRepoSearcher \<Rightarrow> string \<Rightarrow> int \<Rightarrow> RepositorySummary list \<Rightarrow> SearchResult" where
  "mk_result s query totalCount allRepos =
     \<lparr>Source = SourceName s, Query = query, TotalCount = totalCount, Items = allRepos\<rparr>"

function search_loop ::
  "BaseRepoSearcher \<Rightarrow> Context \<Rightarrow> string \<Rightarrow> int \<Rightarrow> int \<Rightarrow> RepositorySummary list \<Rightarrow> int \<Rightarrow> world
     \<Rightarrow> (error + SearchResult) \<times> world" where
  "search_loop s ctx query maxPages page allRepos totalCount w =
     (if page \<le> maxPages then
        (case search_page s ctx query maxPages page allRepos totalCount w of
           (Returned err, allRepos', totalCount', w') \<Rightarrow> (Inl err, w')
         | (Broke, allRepos', totalCount', w') \<Rightarrow> (Inr (mk_result s query totalCount' allRepos'), w')
         | (Continued, allRepos', totalCount', w') \<Rightarrow>
             search_loop s ctx query maxPages (page + 1) allRepos' totalCount' w')
      else (Inr (mk_result s query totalCount allRepos), w))"
  by pat_completeness auto
termination
  by (relation "measure (\<lambda>(s, ctx, query, maxPages, page, allRepos, totalCount, w).
                   nat (maxPages + 1 - page))") auto

declare search_loop.simps [simp del]

definition Search ::
  "BaseRepoSearcher \<Rightarrow> Context \<Rightarrow> string \<Rightarrow> int \<Rightarrow> world \<Rightarrow> (error + SearchResult) \<times> world" where
  "Search s ctx query maxPages w =
     (if query = [] then (Inl (ErrorNew ''query cannot be empty''), w)
      else if maxPages \<le> 0 then (Inl (ErrorNew ''maxPages must be greater than 0''), w)
      else search_loop s ctx query maxPages 1 [] 0 w)"

section \<open>The URLs of the provider adapters\<close>

text \<open>
  The five adapters build their URL with \<open>net/url\<close> and \<open>fmt.Sprintf\<close>. \<open>url.Values\<close> is a
  map from a key to its values, here a list of pairs with distinct keys; \<open>Encode\<close> writes
  it sorted by key, keys and values escaped by \<open>QueryEscape\<close>; \<open>u.Query()\<close> parses the raw
  query of a URL and drops the pairs it cannot parse.
\<close>

type_synonym Values = "(string \<times> string list) list"

fun Values_Set :: "string \<Rightarrow> string \<Rightarrow> Values \<Rightarrow> Values" where
  "Values_Set key val [] = [(key, [val])]"
| "Values_Set key val ((k, vs) # m) =
     (if k = key then (k, [val]) # m else (k, vs) # Values_Set key val m)"

fun Values_Add :: "string \<Rightarrow> string \<Rightarrow> Values \<Rightarrow> Values" where
  "Values_Add key val [] = [(key, [val])]"
| "Values_Add key val ((k, vs) # m) =
     (if k = key then (k, vs @ [val]) # m else (k, vs) # Values_Add key val m)"

definition unreserved :: "char \<Rightarrow> bool" where
  "unreserved c =
     (let n = (of_char c :: nat)
      in (97 \<le> n \<and> n \<le> 122) \<or> (65 \<le> n \<and> n \<le> 90) \<or> (48 \<le> n \<and> n \<le> 57)
         \<or> c = CHR ''-'' \<or> c = CHR ''_'' \<or> c = CHR ''.'' \<or> c = CHR ''~'')"

definition upperhex :: "nat \<Rightarrow> char" where
  "upperhex n = ''0123456789ABCDEF'' ! n"

fun QueryEscape :: "string \<Rightarrow> string" where
  "QueryEscape [] = []"
| "QueryEscape (c # cs) =
     (if unreserved c then [c]
      else if c = CHR '' '' then ''+''
      else [CHR ''%'', upperhex (of_char c div 16), upperhex (of_char c mod 16)])
     @ QueryEscape cs"

definition ishex :: "char \<Rightarrow> bool" where
  "ishex c =
     (let n = (of_char c :: nat)
      in (48 \<le> n \<and> n \<le> 57) \<or> (97 \<le> n \<and> n \<le> 102) \<or> (65 \<le> n \<and> n \<le> 70))"

definition unhex :: "char \<Rightarrow> nat" where
  "unhex c =
     (let n = (of_char c :: nat)
      in if 48 \<le> n \<and> n \<le> 57 then n - 48
         else if 97 \<le> n \<and> n \<le> 102 then n - 97 + 10
         else if 65 \<le> n \<and> n \<le> 70 then n - 65 + 10
         else 0)"

fun QueryUnescape :: "string \<Rightarrow> string option" where
  "QueryUnescape [] = Some []"
| "QueryUnescape (c # cs) =
     (if c = CHR ''%'' then
        (case cs of
           h1 # h2 # rest \<Rightarrow>
             if ishex h1 \<and> ishex h2
             then map_option ((#) (char_of (unhex h1 * 16 + unhex h2))) (QueryUnescape rest)
             else None
         | _ \<Rightarrow> None)
      else map_option ((#) (if c = CHR ''+'' then CHR '' '' else c)) (QueryUnescape cs))"

text \<open>\<open>strings.Cut\<close> and \<open>strings.Split\<close> for a separator of one byte.\<close>

definition Cut :: "string \<Rightarrow> char \<Rightarrow> string \<times> string" where
  "Cut s sep = (takeWhile (\<lambda>c. c \<noteq> sep) s, drop 1 (dropWhile (\<lambda>c. c \<noteq> sep) s))"

fun Split :: "char \<Rightarrow> string \<Rightarrow> string list" where
  "Split sep [] = [[]]"
| "Split sep (c # cs) =
     (if c = sep then [] # Split sep cs
      else (case Split sep cs of [] \<Rightarrow> [[c]] | x # xs \<Rightarrow> (c # x) # xs))"

text \<open>
  One pass through the loop of \<open>url.ParseQuery\<close>, for the piece \<open>key\<close> between two \<open>&\<close>:
  a piece with a semicolon, an empty piece and a piece with a bad escape are skipped.
\<close>

definition parseQuery_pair :: "string \<Rightarrow> Values \<Rightarrow> Values" where
  "parseQuery_pair key m =
     (if CHR '';'' \<in> set key \<or> key = [] then m
      else (case Cut key CHR ''='' of
              (k, v) \<Rightarrow>
                (case QueryUnescape k of
                   None \<Rightarrow> m
                 | Some k' \<Rightarrow>
                     (case QueryUnescape v of
                        None \<Rightarrow> m
                      | Some v' \<Rightarrow> Values_Add k' v' m))))"

definition ParseQuery :: "string \<Rightarrow> Values" where
  "ParseQuery query = foldl (\<lambda>m key. parseQuery_pair key m) [] (Split CHR ''&'' query)"

fun join_amp :: "string list \<Rightarrow> string" where
  "join_amp [] = []"
| "join_amp [x] = x"
| "join_amp (x # y # ys) = x @ ''&'' @ join_amp (y # ys)"

definition Values_Encode :: "Values \<Rightarrow> string" where
  "Values_Encode m =
     join_amp (concat (map (\<lambda>(k, vs). map (\<lambda>v. QueryEscape k @ ''='' @ QueryEscape v) vs)
                           (sort_key fst m)))"

text \<open>
  A parsed URL is the struct \<open>url.URL\<close>, field by field. The functions \<open>url.Parse\<close> and
  \<open>URL.String\<close> belong to the Go library, not to the repository: the adapters take them
  as the parameter \<open>lib\<close>, and what is proved about the adapters holds for whatever these
  two functions compute.
\<close>

record net_url =
  Scheme :: string
  Opaque :: string
  User :: "(string \<times> string option) option"
  Host :: string
  Path :: string
  RawPath :: string
  OmitHost :: bool
  ForceQuery :: bool
  RawQuery :: string
  Fragment :: string
  RawFragment :: string

record net_url_lib =
  url_Parse :: "string \<Rightarrow> error + net_url"
  url_String :: "net_url \<Rightarrow> string"

definition url_Query :: "net_url \<Rightarrow> Values" where
  "url_Query u = ParseQuery (RawQuery u)"

text \<open>\<open>fmt.Sprintf("%d", i)\<close>: the decimal digits of \<open>i\<close>, after a minus sign if it is negative.\<close>

function itoa :: "nat \<Rightarrow> string" where
  "itoa n =
     (if n < 10 then [''0123456789'' ! n] else itoa (n div 10) @ [''0123456789'' ! (n mod 10)])"
  by pat_completeness auto
termination
  by (relation "measure id") auto

declare itoa.simps [simp del]

definition Sprintf_d :: "int \<Rightarrow> string" where
  "Sprintf_d i = (if i < 0 then CHR ''-'' # itoa (nat (- i)) else itoa (nat i))"

text \<open>
  The receivers. \<open>GitLabSearcher\<close>, \<open>BitbucketSearcher\<close> and \<open>GitCodeSearcher\<close> only embed
  the base searcher, so their \<open>g.BaseURL\<close> is the field of the base. \<open>GitHubSearcher\<close> and
  \<open>GiteeSearcher\<close> have a field \<open>BaseURL\<close> of their own, which hides the one of the base.
  The process environment read by \<open>os.Getenv\<close> is a function from the name of a variable
  to its value, empty when the variable is not set. The parameter \<open>perPage\<close> of the Go
  methods is \<open>perPage'\<close> here.
\<close>

record GitHubSearcher =
  GitHub_base :: BaseRepoSearcher
  GitHub_BaseURL :: string

record GiteeSearcher =
  Gitee_base :: BaseRepoSearcher
  Gitee_BaseURL :: string

type_synonym environ = "string \<Rightarrow> string"

definition GitCodeSearcher_buildSearchURL ::
  "net_url_lib \<Rightarrow> environ \<Rightarrow> BaseRepoSearcher \<Rightarrow> string \<Rightarrow> int \<Rightarrow> int \<Rightarrow> error + string" where
  "GitCodeSearcher_buildSearchURL lib Getenv g query page perPage' =
     (case url_Parse lib (BaseURL g @ ''/search/repositories'') of
        Inl err \<Rightarrow> Inl (ParseBaseURLFailed err)
      | Inr u \<Rightarrow>
          let q = url_Query u;
              q = Values_Set ''q'' query q;
              q = Values_Set ''page'' (Sprintf_d page) q;
              q = Values_Set ''per_page'' (Sprintf_d perPage') q;
              lang = Getenv ''GITCODE_LANG'';
              q = (if lang \<noteq> [] then Values_Set ''language'' lang q else q)
          in Inr (url_String lib (u\<lparr>RawQuery := Values_Encode q\<rparr>)))"

definition GiteeSearcher_buildSearchURL ::
  "net_url_lib \<Rightarrow> GiteeSearcher \<Rightarrow> string \<Rightarrow> int \<Rightarrow> int \<Rightarrow> error + string" where
  "GiteeSearcher_buildSearchURL lib g query page perPage' =
     (case url_Parse lib (Gitee_BaseURL g @ ''/search/repositories'') of
        Inl err \<Rightarrow> Inl (ParseBaseURLFailed err)
      | Inr u \<Rightarrow>
          let q = url_Query u;
              q = Values_Set ''q'' query q;
              q = Values_Set ''page'' (Sprintf_d page) q;
              q = Values_Set ''per_page'' (Sprintf_d perPage') q;
              q = (if Token (Gitee_base g) \<noteq> []
                   then Values_Set ''access_token'' (Token (Gitee_base g)) q else q)
          in Inr (url_String lib (u\<lparr>RawQuery := Values_Encode q\<rparr>)))"

definition GitHubSearcher_buildSearchURL ::
  "net_url_lib \<Rightarrow> GitHubSearcher \<Rightarrow> string \<Rightarrow> int \<Rightarrow> int \<Rightarrow> error + string" where
  "GitHubSearcher_buildSearchURL lib g query page perPage' =
     (case url_Parse lib (GitHub_BaseURL g @ ''/search/repositories'') of
        Inl err \<Rightarrow> Inl (ParseBaseURLFailed err)
      | Inr u \<Rightarrow>
          let q = url_Query u;
              q = Values_Set ''q'' query q;
              q = Values_Set ''page'' (Sprintf_d page) q;
              q = Values_Set ''per_page'' (Sprintf_d perPage') q
          in Inr (url_String lib (u\<lparr>RawQuery := Values_Encode q\<rparr>)))"

definition GitLabSearcher_buildSearchURL ::
  "net_url_lib \<Rightarrow> BaseRepoSearcher \<Rightarrow> string \<Rightarrow> int \<Rightarrow> int \<Rightarrow> error + string" where
  "GitLabSearcher_buildSearchURL lib g query page perPage' =
     (case url_Parse lib (BaseURL g @ ''/projects'') of
        Inl err \<Rightarrow> Inl (ParseBaseURLFailed err)
      | Inr u \<Rightarrow>
          let q = url_Query u;
              q = Values_Set ''search'' query q;
              q = Values_Set ''page'' (Sprintf_d page) q;
              q = Values_Set ''per_page'' (Sprintf_d perPage') q
          in Inr (url_String lib (u\<lparr>RawQuery := Values_Encode q\<rparr>)))"

definition BitbucketSearcher_buildSearchURL ::
  "net_url_lib \<Rightarrow> BaseRepoSearcher \<Rightarrow> string \<Rightarrow> int \<Rightarrow> int \<Rightarrow> error + string" where
  "BitbucketSearcher_buildSearchURL lib b query page perPage' =
     (case url_Parse lib (BaseURL b @ ''/repositories'') of
        Inl err \<Rightarrow> Inl (ParseBaseURLFailed err)
      | Inr u \<Rightarrow>
          let q = url_Query u;
              q = Values_Set ''q'' (''name~'' @ [CHR 0x22] @ query @ [CHR 0x22]) q;
              q = Values_Set ''page'' (Sprintf_d page) q;
              q = Values_Set ''pagelen'' (Sprintf_d perPage') q
          in Inr (url_String lib (u\<lparr>RawQuery := Values_Encode q\<rparr>)))"

text \<open>
  A value of the interface \<open>RepoSearcher\<close> is one of the five adapters; a call of its
  method \<open>buildSearchURL\<close> goes to the method of that adapter.
\<close>

datatype adapter =
    GitHub GitHubSearcher
  | GitLab BaseRepoSearcher
  | Bitbucket BaseRepoSearcher
  | GitCode BaseRepoSearcher
  | Gitee GiteeSearcher

fun adapter_buildSearchURL ::
  "net_url_lib \<Rightarrow> environ \<Rightarrow> adapter \<Rightarrow> string \<Rightarrow> int \<Rightarrow> int \<Rightarrow> error + string" where
  "adapter_buildSearchURL lib Getenv (GitHub g) = GitHubSearcher_buildSearchURL lib g"
| "adapter_buildSearchURL lib Getenv (GitLab g) = GitLabSearcher_buildSearchURL lib g"
| "adapter_buildSearchURL lib Getenv (Bitbucket b) = BitbucketSearcher_buildSearchURL lib b"
| "adapter_buildSearchURL lib Getenv (GitCode g) = GitCodeSearcher_buildSearchURL lib Getenv g"
| "adapter_buildSearchURL lib Getenv (Gitee g) = GiteeSearcher_buildSearchURL lib g"

text \<open>
  The GitCode and GitLab searchers as their constructors set them up, and three process
  environments: one where no variable is set, one where only \<open>GITCODE_LANG\<close> is set, to
  \<open>go\<close>, and one where only \<open>HOME\<close> is set. For the two URLs these searchers hand to
  \<open>url.Parse\<close>, \<open>ex_lib\<close> tabulates what \<open>url.Parse\<close> returns (the scheme, the host and the
  path, everything else empty); its \<open>url_String\<close> is what \<open>URL.String\<close> returns for such a
  URL, whose path needs no escaping, with any raw query. Outside this table \<open>ex_lib\<close>
  says nothing about the library.
\<close>

definition NewGitCodeSearcher ::
  "RepoSearcher \<Rightarrow> string \<Rightarrow> (nat \<Rightarrow> request \<Rightarrow> error + response) \<Rightarrow> BaseRepoSearcher" where
  "NewGitCodeSearcher impl token client =
     (NewBaseRepoSearcher impl token client)
       \<lparr>SourceName := ''GitCode'', BaseURL := ''https://api.gitcode.com/api/v5''\<rparr>"

definition NewGitLabSearcher ::
  "RepoSearcher \<Rightarrow> string \<Rightarrow> (nat \<Rightarrow> request \<Rightarrow> error + response) \<Rightarrow> BaseRepoSearcher" where
  "NewGitLabSearcher impl token client =
     (NewBaseRepoSearcher impl token client)
       \<lparr>SourceName := ''GitLab'', BaseURL := ''https://gitlab.com/api/v4''\<rparr>"

definition ex_url :: "string \<Rightarrow> string \<Rightarrow> string \<Rightarrow> net_url" where
  "ex_url scheme host path =
     \<lparr>Scheme = scheme, Opaque = [], User = None, Host = host, Path = path, RawPath = [],
      OmitHost = False, ForceQuery = False, RawQuery = [], Fragment = [], RawFragment = []\<rparr>"

definition ex_lib :: net_url_lib where
  "ex_lib =
     \<lparr>url_Parse = (\<lambda>rawURL.
        if rawURL = ''https://api.gitcode.com/api/v5/search/repositories''
        then Inr (ex_url ''https'' ''api.gitcode.com'' ''/api/v5/search/repositories'')
        else if rawURL = ''https://gitlab.com/api/v4/projects''
        then Inr (ex_url ''https'' ''gitlab.com'' ''/api/v4/projects'')
        else Inl (ErrorNew ''not in the table'')),
      url_String = (\<lambda>u.
        Scheme u @ ''://'' @ Host u @ Path u
          @ (if ForceQuery u \<or> RawQuery u \<noteq> [] then ''?'' @ RawQuery u else []))\<rparr>"

definition env_empty :: environ where
  "env_empty name = []"

definition env_lang_go :: environ where
  "env_lang_go name = (if name = ''GITCODE_LANG'' then ''go'' else [])"

definition env_home :: environ where
  "env_home name = (if name = ''HOME'' then ''/root'' else [])"

section \<open>Observations on a run\<close>

text \<open>
  \<open>loop_state_at \<dots> n w0\<close> is the state of the page loop of a run of \<open>Search\<close> started in
  world \<open>w0\<close> after \<open>n\<close> passes that all reached \<open>page++\<close>: the page to do next, the
  records and the total so far, and the world. It is \<open>None\<close> when the run does not
  enter the loop or leaves it earlier.
\<close>

fun loop_state_at ::
  "BaseRepoSearcher \<Rightarrow> Context \<Rightarrow> string \<Rightarrow> int \<Rightarrow> nat \<Rightarrow> world
     \<Rightarrow> (int \<times> RepositorySummary list \<times> int \<times> world) option" where
  "loop_state_at s ctx query maxPages 0 w0 =
     (if query = [] \<or> maxPages \<le> 0 then None else Some (1, [], 0, w0))"
| "loop_state_at s ctx query maxPages (Suc n) w0 =
     (case loop_state_at s ctx query maxPages n w0 of
        None \<Rightarrow> None
      | Some (page, allRepos, totalCount, w) \<Rightarrow>
          if page \<le> maxPages then
            (case search_page s ctx query maxPages page allRepos totalCount w of
               (Continued, allRepos', totalCount', w') \<Rightarrow> Some (page + 1, allRepos', totalCount', w')
             | (_, _, _, _) \<Rightarrow> None)
          else None)"

text \<open>
  \<open>page_parse \<dots> n w0\<close> is what \<open>parseSearchResponse\<close> returned for page \<open>n + 1\<close> of the
  run, and \<open>None\<close> when the run never called it for that page.
\<close>

definition page_parse ::
  "BaseRepoSearcher \<Rightarrow> Context \<Rightarrow> string \<Rightarrow> int \<Rightarrow> nat \<Rightarrow> world
     \<Rightarrow> (error + (RepositorySummary list \<times> int \<times> bool)) option" where
  "page_parse s ctx query maxPages n w0 =
     (case loop_state_at s ctx query maxPages n w0 of
        None \<Rightarrow> None
      | Some (page, allRepos, totalCount, w) \<Rightarrow>
          if page \<le> maxPages then
            (case buildSearchURL (implementation s) query page perPage of
               Inl err \<Rightarrow> None
             | Inr url \<Rightarrow>
                 (case fetchWithRetries s ctx url (log_Printf (LogFetching page url) w) of
                    (Inr (Some body), w1) \<Rightarrow> Some (parseSearchResponse (implementation s) body)
                  | (_, _) \<Rightarrow> None))
          else None)"


fun sleeps :: "event list \<Rightarrow> duration list" where
  "sleeps [] = []"
| "sleeps (Sleep d # es) = d # sleeps es"
| "sleeps (e # es) = sleeps es"




text \<open>
  \<open>records_upto \<dots> n w0\<close> are the records that \<open>parseSearchResponse\<close> returned for pages
  \<open>1\<close> to \<open>n\<close> of the run, in page order.
\<close>

definition records_upto ::
  "BaseRepoSearcher \<Rightarrow> Context \<Rightarrow> string \<Rightarrow> int \<Rightarrow> nat \<Rightarrow> world \<Rightarrow> RepositorySummary list" where
  "records_upto s ctx query maxPages n w0 =
     concat (map (\<lambda>k. case page_parse s ctx query maxPages k w0 of
                         Some (Inr (repos, tc, hasMore)) \<Rightarrow> repos
                       | _ \<Rightarrow> [])
                 [0..<n])"

text \<open>
  The outcome of one HTTP call is retried by \<open>fetchWithRetries\<close> when it is a transport
  error or a status other than 200, 401, 403 and 404; \<open>attempt_error\<close> is the error the
  loop keeps in \<open>lastErr\<close> for it.
\<close>

definition retried :: "error + response \<Rightarrow> bool" where
  "retried out =
     (case out of
        Inl err \<Rightarrow> True
      | Inr resp \<Rightarrow> StatusCode resp \<noteq> 200 \<and> StatusCode resp \<noteq> 401
                    \<and> StatusCode resp \<noteq> 403 \<and> StatusCode resp \<noteq> 404)"

definition attempt_error :: "error + response \<Rightarrow> error" where
  "attempt_error out =
     (case out of
        Inl err \<Rightarrow> RequestFailed err
      | Inr resp \<Rightarrow> ApiStatusFailed (StatusCode resp) (Body resp))"

section \<open>An example adapter and scripted clients\<close>

text \<open>
  A small adapter to run the orchestrator on. Its URL is the query followed by one
  \<open>+\<close> per page, and building it fails on page \<open>badPage\<close>. A body is a string: the empty
  body does not parse; otherwise the first character says whether more pages follow
  (\<open>m\<close>) and every further character is one record. The client answers the \<open>n\<close>-th call
  with the \<open>n\<close>-th entry of a script and with a transport error after its end.
\<close>

definition ex_repo :: "char \<Rightarrow> RepositorySummary" where
  "ex_repo c =
     \<lparr>Name = [c], FullName = [], Description = [], URL = [], Stars = 0, Forks = 0,
      Language = ''Unknown'', CreatedAt = [], UpdatedAt = [], IsPrivate = False, IsFork = False,
      IsArchived = False, Topics = [], License = ''None'', OpenIssuesCount = 0\<rparr>"

definition ex_adapter :: "int \<Rightarrow> RepoSearcher" where
  "ex_adapter badPage =
     \<lparr>buildSearchURL = (\<lambda>query page pp.
        if page = badPage then Inl (ErrorNew ''failed to parse base URL'')
        else Inr (query @ replicate (nat page) CHR ''+'')),
      buildSearchRequest = (\<lambda>ctx url.
        Inr \<lparr>req_ctx = ctx, req_method = ''GET'', req_url = url, req_header = []\<rparr>),
      parseSearchResponse = (\<lambda>body.
        case body of
          [] \<Rightarrow> Inl (ErrorNew ''EOF'')
        | c # cs \<Rightarrow> Inr (map ex_repo cs, int (length cs), c = CHR ''m''))\<rparr>"

definition scripted :: "(error + response) list \<Rightarrow> nat \<Rightarrow> request \<Rightarrow> error + response" where
  "scripted outs n req = (if n < length outs then outs ! n else Inl (ErrorNew ''timeout''))"

definition status :: "int \<Rightarrow> string \<Rightarrow> error + response" where
  "status code b = Inr \<lparr>StatusCode = code, Body = b\<rparr>"

definition ex_searcher :: "int \<Rightarrow> (error + response) list \<Rightarrow> BaseRepoSearcher" where
  "ex_searcher badPage outs = NewBaseRepoSearcher (ex_adapter badPage) [] (scripted outs)"

definition w_init :: world where
  "w_init = \<lparr>calls = 0, clock = 0, trace = []\<rparr>"

section \<open>Lemmas on the two loops\<close>

lemmas ex_defs = ex_searcher_def NewBaseRepoSearcher_def ex_adapter_def scripted_def status_def
  w_init_def ex_repo_def fetchWithRetries_def client_Do_def log_Printf_def time_Sleep_def slept_def
  body_Close_def Second_def Millisecond_def search_page_def Search_def perPage_def mk_result_def
  page_parse_def fetch_loop.simps search_loop.simps

text \<open>\<open>fetchWithRetries\<close> never returns a nil body without an error.\<close>

lemma fetch_loop_not_nil: "fst (fetch_loop s ctx url i lastErr delay w) \<noteq> Inr None"
proof (induction s ctx url i lastErr delay w rule: fetch_loop.induct)
  case (1 s ctx url i lastErr delay w)
  show ?case
    apply (subst fetch_loop.simps)
    using "1.IH"
    apply (auto split: sum.splits prod.splits simp: Let_def)
    done
qed

lemma fetchWithRetries_not_nil: "fetchWithRetries s ctx url w \<noteq> (Inr None, w')"
  using fetch_loop_not_nil [of s ctx url 0 None "RetryDelay s" w]
  by (auto simp: fetchWithRetries_def)

lemma loop_state_at_page:
  "loop_state_at s ctx query maxPages n w0 = Some (p, allRepos, totalCount, w) \<Longrightarrow> p = int n + 1"
  by (induction n arbitrary: p allRepos totalCount w)
     (auto split: option.splits if_splits prod.splits flow.splits)

lemma Search_loop_state:
  "loop_state_at s ctx query maxPages n w0 = Some (p, allRepos, totalCount, w) \<Longrightarrow>
   Search s ctx query maxPages w0 = search_loop s ctx query maxPages p allRepos totalCount w"
proof (induction n arbitrary: p allRepos totalCount w)
  case 0
  then show ?case by (auto simp: Search_def split: if_splits)
next
  case (Suc n)
  from Suc.prems obtain p' ar' tc' w' where
    st: "loop_state_at s ctx query maxPages n w0 = Some (p', ar', tc', w')"
    and le: "p' \<le> maxPages"
    and pg: "search_page s ctx query maxPages p' ar' tc' w' = (Continued, allRepos, totalCount, w)"
    and p: "p = p' + 1"
    by (auto split: option.splits if_splits prod.splits flow.splits)
  have "Search s ctx query maxPages w0 = search_loop s ctx query maxPages p' ar' tc' w'"
    by (rule Suc.IH [OF st])
  also have "\<dots> = search_loop s ctx query maxPages p allRepos totalCount w"
    using le pg p by (subst search_loop.simps) simp
  finally show ?case .
qed

lemma Search_from:
  assumes "loop_state_at s ctx query maxPages n w0 = Some (p, allRepos, totalCount, w)"
    and "p \<le> maxPages"
  shows "Search s ctx query maxPages w0 =
           (case search_page s ctx query maxPages p allRepos totalCount w of
              (Returned err, allRepos', totalCount', w') \<Rightarrow> (Inl err, w')
            | (Broke, allRepos', totalCount', w') \<Rightarrow> (Inr (mk_result s query totalCount' allRepos'), w')
            | (Continued, allRepos', totalCount', w') \<Rightarrow>
                search_loop s ctx query maxPages (p + 1) allRepos' totalCount' w')"
  using assms(2) unfolding Search_loop_state [OF assms(1)]
  by (subst search_loop.simps) simp

lemma search_page_Continued:
  assumes "search_page s ctx query maxPages p ar tc w = (Continued, ar', tc', w')"
  shows "\<exists>url body w1 repos t.
           buildSearchURL (implementation s) query p perPage = Inr url \<and>
           fetchWithRetries s ctx url (log_Printf (LogFetching p url) w) = (Inr (Some body), w1) \<and>
           parseSearchResponse (implementation s) body = Inr (repos, t, True) \<and> repos \<noteq> [] \<and>
           ar' = ar @ repos \<and> tc' = (if p = 1 then t else tc)"
  using assms fetchWithRetries_not_nil
  by (auto simp: search_page_def Let_def split: sum.splits prod.splits option.splits if_splits)

lemma loop_state_at_Suc:
  assumes "loop_state_at s ctx query maxPages (Suc n) w0 = Some (p, ar, tc, w)"
  shows "\<exists>p' ar' tc' w'. loop_state_at s ctx query maxPages n w0 = Some (p', ar', tc', w') \<and>
           p' \<le> maxPages \<and> p = p' + 1 \<and>
           search_page s ctx query maxPages p' ar' tc' w' = (Continued, ar, tc, w)"
  using assms by (auto split: option.splits if_splits prod.splits flow.splits)

lemma loop_state_at_records:
  "loop_state_at s ctx query maxPages n w0 = Some (p, ar, tc, w) \<Longrightarrow>
   ar = records_upto s ctx query maxPages n w0"
proof (induction n arbitrary: p ar tc w)
  case 0
  then show ?case by (simp add: records_upto_def split: if_splits)
next
  case (Suc n)
  from loop_state_at_Suc [OF Suc.prems] obtain p' ar' tc' w' where
    st: "loop_state_at s ctx query maxPages n w0 = Some (p', ar', tc', w')"
    and le: "p' \<le> maxPages"
    and pg: "search_page s ctx query maxPages p' ar' tc' w' = (Continued, ar, tc, w)"
    by blast
  from search_page_Continued [OF pg] obtain url body w1 repos t where
    b: "buildSearchURL (implementation s) query p' perPage = Inr url"
    and f: "fetchWithRetries s ctx url (log_Printf (LogFetching p' url) w') = (Inr (Some body), w1)"
    and ps: "parseSearchResponse (implementation s) body = Inr (repos, t, True)"
    and ar: "ar = ar' @ repos"
    by blast
  have "page_parse s ctx query maxPages n w0 = Some (Inr (repos, t, True))"
    using st le b f ps by (simp add: page_parse_def)
  moreover have "ar' = records_upto s ctx query maxPages n w0"
    by (rule Suc.IH [OF st])
  ultimately show ?case
    using ar by (simp add: records_upto_def)
qed

lemma search_page_totalCount:
  "p \<noteq> 1 \<Longrightarrow> search_page s ctx query maxPages p ar tc w = (fl, ar', tc', w') \<Longrightarrow> tc' = tc"
  by (auto simp: search_page_def Let_def split: sum.splits prod.splits option.splits if_splits)

lemma search_loop_totalCount:
  "1 < p \<Longrightarrow> fst (search_loop s ctx query maxPages p ar tc w) = Inr r \<Longrightarrow> TotalCount r = tc"
proof (induction s ctx query maxPages p ar tc w rule: search_loop.induct)
  case (1 s ctx query maxPages page allRepos totalCount w)
  show ?case
  proof (cases "page \<le> maxPages")
    case False
    with "1.prems" show ?thesis
      by (subst (asm) search_loop.simps) (auto simp: mk_result_def)
  next
    case True
    obtain fl ar' tc' w' where
      pg: "search_page s ctx query maxPages page allRepos totalCount w = (fl, ar', tc', w')"
      by (cases "search_page s ctx query maxPages page allRepos totalCount w") auto
    have tc: "tc' = totalCount"
      using "1.prems"(1) pg by (auto dest: search_page_totalCount [rotated])
    show ?thesis
    proof (cases fl)
      case (Returned e)
      with True pg "1.prems" show ?thesis
        by (subst (asm) search_loop.simps) simp
    next
      case Broke
      with True pg "1.prems" tc show ?thesis
        by (subst (asm) search_loop.simps) (auto simp: mk_result_def)
    next
      case Continued
      have "fst (search_loop s ctx query maxPages (page + 1) ar' tc' w') = Inr r"
        using True pg Continued "1.prems"(2) by (subst (asm) search_loop.simps) simp
      moreover have "1 < page + 1" using "1.prems"(1) by simp
      ultimately have "TotalCount r = tc'"
        using "1.IH" [OF True pg [symmetric] Continued refl refl] by blast
      with tc show ?thesis by simp
    qed
  qed
qed










lemma sleeps_append: "sleeps (xs @ ys) = sleeps xs @ sleeps ys"
  by (induction xs rule: sleeps.induct) auto

lemma fetch_loop_calls_le:
  "calls (snd (fetch_loop s ctx url i lastErr delay w)) \<le> calls w + nat (MaxRetries s - i)"
proof (induction "nat (MaxRetries s - i)" arbitrary: i lastErr delay w)
  case 0
  then show ?case by (subst fetch_loop.simps) simp
next
  case (Suc n)
  then have lt: "i < MaxRetries s" and n: "n = nat (MaxRetries s - (i + 1))" by auto
  have step: "calls (snd (fetch_loop s ctx url (i + 1) e d w')) \<le> calls w' + n" for e d w'
    using Suc.hyps(1) [OF n] n by simp
  show ?case
    apply (subst fetch_loop.simps)
    using lt Suc.hyps(2) [symmetric]
          step [of _ _ "time_Sleep delay (log_Printf _ (snd (client_Do s _ w)))"]
          step [of _ _ "time_Sleep delay (log_Printf _ (body_Close _ (snd (client_Do s _ w))))"]
    apply (auto split: sum.splits prod.splits
        simp: Let_def client_Do_def log_Printf_def time_Sleep_def slept_def body_Close_def)
    done
qed

lemma fetch_loop_retry_step:
  assumes "i < MaxRetries s"
    and "buildSearchRequest (implementation s) ctx url = Inr req"
    and "retried (HTTPClient s (calls w) req)"
  shows "\<exists>w'. fetch_loop s ctx url i lastErr delay w =
                 fetch_loop s ctx url (i + 1) (Some (attempt_error (HTTPClient s (calls w) req)))
                   (delay * 2) w'
              \<and> calls w' = Suc (calls w)
              \<and> clock w' = clock w + slept delay
              \<and> sleeps (trace w') = sleeps (trace w) @ [delay]"
proof (cases "HTTPClient s (calls w) req")
  case (Inl err)
  let ?w' = "time_Sleep delay
               (log_Printf (LogAttemptFailed (i + 1) (MaxRetries s) err delay)
                  (snd (client_Do s req w)))"
  have "fetch_loop s ctx url i lastErr delay w =
          fetch_loop s ctx url (i + 1) (Some (attempt_error (HTTPClient s (calls w) req)))
            (delay * 2) ?w'"
    using assms(1,2) Inl
    by (subst fetch_loop.simps) (simp add: client_Do_def attempt_error_def)
  then show ?thesis
    by (intro exI [of _ ?w'])
       (simp add: client_Do_def log_Printf_def time_Sleep_def slept_def sleeps_append)
next
  case (Inr resp)
  let ?w' = "time_Sleep delay
               (log_Printf (LogAttemptStatus (i + 1) (MaxRetries s) (StatusCode resp) delay)
                  (body_Close (Body resp) (snd (client_Do s req w))))"
  have "fetch_loop s ctx url i lastErr delay w =
          fetch_loop s ctx url (i + 1) (Some (attempt_error (HTTPClient s (calls w) req)))
            (delay * 2) ?w'"
    using assms Inr
    by (subst fetch_loop.simps) (simp add: client_Do_def attempt_error_def retried_def Let_def)
  then show ?thesis
    by (intro exI [of _ ?w'])
       (simp add: client_Do_def log_Printf_def time_Sleep_def slept_def body_Close_def sleeps_append)
qed

lemma fetch_loop_exhaust:
  assumes "buildSearchRequest (implementation s) ctx url = Inr req"
    and "\<forall>k < nat (MaxRetries s - i). retried (HTTPClient s (calls w + k) req)"
  shows "fst (fetch_loop s ctx url i lastErr delay w) =
           Inl (FetchExhausted (MaxRetries s)
                  (if i < MaxRetries s
                   then Some (attempt_error
                          (HTTPClient s (calls w + nat (MaxRetries s - i) - 1) req))
                   else lastErr))
       \<and> calls (snd (fetch_loop s ctx url i lastErr delay w)) = calls w + nat (MaxRetries s - i)
       \<and> sleeps (trace (snd (fetch_loop s ctx url i lastErr delay w))) =
           sleeps (trace w) @ map (\<lambda>k. delay * 2 ^ k) [0..<nat (MaxRetries s - i)]
       \<and> clock (snd (fetch_loop s ctx url i lastErr delay w)) =
           clock w + (\<Sum>k<nat (MaxRetries s - i). slept (delay * 2 ^ k))"
  using assms(2)
proof (induction "nat (MaxRetries s - i)" arbitrary: i lastErr delay w)
  case 0
  then show ?case by (subst (1 2 3 4) fetch_loop.simps) simp
next
  case (Suc n)
  then have lt: "i < MaxRetries s" and n: "n = nat (MaxRetries s - (i + 1))" by auto
  have r0: "retried (HTTPClient s (calls w) req)"
    using Suc.prems Suc.hyps(2) [symmetric] by (auto dest: spec [of _ 0])
  from fetch_loop_retry_step [OF lt assms(1) r0, of lastErr delay] obtain w' where
    eq: "fetch_loop s ctx url i lastErr delay w =
           fetch_loop s ctx url (i + 1) (Some (attempt_error (HTTPClient s (calls w) req)))
             (delay * 2) w'"
    and c: "calls w' = Suc (calls w)"
    and cl: "clock w' = clock w + slept delay"
    and sl: "sleeps (trace w') = sleeps (trace w) @ [delay]"
    by blast
  have rs: "\<forall>k < nat (MaxRetries s - (i + 1)). retried (HTTPClient s (calls w' + k) req)"
  proof (intro allI impI)
    fix k assume "k < nat (MaxRetries s - (i + 1))"
    then have "Suc k < nat (MaxRetries s - i)" by simp
    with Suc.prems have "retried (HTTPClient s (calls w + Suc k) req)" by blast
    then show "retried (HTTPClient s (calls w' + k) req)" by (simp add: c)
  qed
  note IH = Suc.hyps(1) [OF n rs, of "Some (attempt_error (HTTPClient s (calls w) req))" "delay * 2"]
  have m: "map (\<lambda>k. delay * 2 ^ k) [0..<Suc n] = delay # map (\<lambda>k. delay * 2 * 2 ^ k) [0..<n]"
    by (simp add: map_upt_Suc del: upt_Suc)
  have sm: "(\<Sum>k<Suc n. slept (delay * 2 ^ k)) = slept delay + (\<Sum>k<n. slept (delay * 2 * 2 ^ k))"
    by (simp add: sum.lessThan_Suc_shift mult.assoc del: sum.lessThan_Suc)
  have e: "(if i + 1 < MaxRetries s
            then Some (attempt_error (HTTPClient s (calls w' + nat (MaxRetries s - (i + 1)) - 1) req))
            else Some (attempt_error (HTTPClient s (calls w) req))) =
           Some (attempt_error (HTTPClient s (calls w + nat (MaxRetries s - i) - 1) req))"
    using lt c n Suc.hyps(2) [symmetric] by (cases n) auto
  show ?case
    unfolding eq
    using IH lt c cl sl m sm e n Suc.hyps(2) [symmetric]
    by (simp del: upt_Suc)
qed

lemma fetch_loop_sleeps:
  "\<exists>m \<le> nat (MaxRetries s - i).
     sleeps (trace (snd (fetch_loop s ctx url i lastErr delay w))) =
       sleeps (trace w) @ map (\<lambda>k. delay * 2 ^ k) [0..<m]"
proof (induction "nat (MaxRetries s - i)" arbitrary: i lastErr delay w)
  case 0
  then show ?case
    by (subst fetch_loop.simps) simp
next
  case (Suc n)
  then have lt: "i < MaxRetries s" and n: "n = nat (MaxRetries s - (i + 1))"
    and sn: "nat (MaxRetries s - i) = Suc n" by auto
  have none: "\<exists>m \<le> nat (MaxRetries s - i).
      sleeps (trace w') = sleeps (trace w) @ map (\<lambda>k. delay * 2 ^ k) [0..<m]"
    if "sleeps (trace w') = sleeps (trace w)" for w'
    using that by (intro exI [of _ 0]) simp
  have more: "\<exists>m \<le> nat (MaxRetries s - i).
      sleeps (trace (snd (fetch_loop s ctx url (i + 1) e (delay * 2) w'))) =
        sleeps (trace w) @ map (\<lambda>k. delay * 2 ^ k) [0..<m]"
    if a: "sleeps (trace w') = sleeps (trace w) @ [delay]" for w' e
  proof -
    from Suc.hyps(1) [OF n, of e "delay * 2" w'] obtain m where
      m: "m \<le> n"
      "sleeps (trace (snd (fetch_loop s ctx url (i + 1) e (delay * 2) w'))) =
         sleeps (trace w') @ map (\<lambda>k. delay * 2 * 2 ^ k) [0..<m]"
      using n by auto
    have "map (\<lambda>k. delay * 2 ^ k) [0..<Suc m] = delay # map (\<lambda>k. delay * 2 * 2 ^ k) [0..<m]"
      by (simp add: map_upt_Suc mult.assoc del: upt_Suc)
    then show ?thesis
      using m a sn by (intro exI [of _ "Suc m"]) (simp del: upt_Suc)
  qed
  show ?case
  proof (cases "buildSearchRequest (implementation s) ctx url")
    case (Inl e)
    then have "fetch_loop s ctx url i lastErr delay w = (Inl (CreateRequestFailed e), w)"
      using lt by (subst fetch_loop.simps) simp
    then show ?thesis using none [of w] by simp
  next
    case (Inr req)
    let ?w1 = "snd (client_Do s req w)"
    have w1: "sleeps (trace ?w1) = sleeps (trace w)"
      by (simp add: client_Do_def sleeps_append)
    show ?thesis
    proof (cases "retried (HTTPClient s (calls w) req)")
      case True
      from fetch_loop_retry_step [OF lt Inr True, of lastErr delay] obtain w' where
        "fetch_loop s ctx url i lastErr delay w =
           fetch_loop s ctx url (i + 1) (Some (attempt_error (HTTPClient s (calls w) req)))
             (delay * 2) w'"
        and "sleeps (trace w') = sleeps (trace w) @ [delay]"
        by blast
      then show ?thesis using more [of w'] by simp
    next
      case False
      then obtain resp where resp: "HTTPClient s (calls w) req = Inr resp"
        and st: "StatusCode resp = 200 \<or> StatusCode resp = 401 \<or> StatusCode resp = 403
                   \<or> StatusCode resp = 404"
        by (cases "HTTPClient s (calls w) req") (auto simp: retried_def)
      have "fetch_loop s ctx url i lastErr delay w =
              (if StatusCode resp = 200 then (Inr (Some (Body resp)), ?w1)
               else (Inl (ApiStatusFailed (StatusCode resp) (Body resp)),
                     body_Close (Body resp) ?w1))"
        using lt Inr resp st by (subst fetch_loop.simps) (auto simp: client_Do_def Let_def)
      then have "sleeps (trace (snd (fetch_loop s ctx url i lastErr delay w))) = sleeps (trace w)"
        using w1 by (simp add: body_Close_def sleeps_append client_Do_def)
      then show ?thesis by (rule none)
    qed
  qed
qed

lemma sint_scaled:
  fixes d :: duration
  assumes "- (2 ^ 63) \<le> sint d * 2 ^ k" and "sint d * 2 ^ k < 2 ^ 63"
  shows "sint (d * 2 ^ k) = sint d * 2 ^ k"
proof -
  have "d * 2 ^ k = word_of_int (sint d * 2 ^ k)"
    by simp
  then have "sint (d * 2 ^ k) = signed_take_bit 63 (sint d * 2 ^ k)"
    by (simp only: sint_sbintrunc') simp
  also have "\<dots> = sint d * 2 ^ k"
    using assms by (intro signed_take_bit_int_eq_self) auto
  finally show ?thesis .
qed

lemma scaled_between:
  fixes x :: int
  assumes "j \<le> m" and "- (2 ^ 63) \<le> x * 2 ^ m" and "x * 2 ^ m < 2 ^ 63"
  shows "- (2 ^ 63) \<le> x * 2 ^ j \<and> x * 2 ^ j < 2 ^ 63"
proof (cases "0 \<le> x")
  case True
  have "(2::int) ^ j \<le> 2 ^ m"
    using assms(1) by (intro power_increasing) auto
  then have "x * 2 ^ j \<le> x * 2 ^ m"
    using True by (intro mult_left_mono) auto
  moreover have "0 \<le> x * 2 ^ j"
    using True by simp
  moreover have "(0::int) < 2 ^ 63"
    by simp
  ultimately show ?thesis
    using assms(3) by linarith
next
  case False
  have "(2::int) ^ j \<le> 2 ^ m"
    using assms(1) by (intro power_increasing) auto
  then have "x * 2 ^ m \<le> x * 2 ^ j"
    using False by (intro mult_left_mono_neg) auto
  moreover have "x * 2 ^ j \<le> 0"
    using False by (simp add: mult_le_0_iff)
  moreover have "(0::int) < 2 ^ 63"
    by simp
  ultimately show ?thesis
    using assms(2) by linarith
qed

lemma sint_doubled:
  fixes d :: duration
  assumes "- (2 ^ 63) \<le> sint d * 2 ^ (n - 1)" and "sint d * 2 ^ (n - 1) < 2 ^ 63"
    and "Suc k < n"
  shows "sint (d * 2 ^ Suc k) = 2 * sint (d * 2 ^ k)"
proof -
  have a: "Suc k \<le> n - 1" and b: "k \<le> n - 1"
    using assms(3) by simp_all
  have "sint (d * 2 ^ Suc k) = sint d * 2 ^ Suc k"
    using scaled_between [OF a assms(1,2)] by (intro sint_scaled) simp_all
  moreover have "sint (d * 2 ^ k) = sint d * 2 ^ k"
    using scaled_between [OF b assms(1,2)] by (intro sint_scaled) simp_all
  ultimately show ?thesis by simp
qed

section \<open>Claims on the Search Orchestrator\<close>

text \<open>
  C1. Let a run of \<open>Search\<close>, with any context, reach page \<open>p \<le> maxPages\<close> with the records
  \<open>allRepos\<close> of pages \<open>1\<close> to \<open>p - 1\<close> (the run enters the page loop only for a non-empty
  query and \<open>maxPages \<ge> 1\<close>), and let the fetch of page \<open>p\<close> fail (after its retries). On page 1 \<open>Search\<close> returns the error and no result; on a later page it
  leaves the loop and returns the accumulated records as a result without an error, the
  failure only being logged.
\<close>

theorem Search_fetch_failure:
  assumes "loop_state_at s ctx query maxPages n w0 = Some (p, allRepos, totalCount, w)"
    and "p \<le> maxPages"
    and "buildSearchURL (implementation s) query p perPage = Inr url"
    and "fetchWithRetries s ctx url (log_Printf (LogFetching p url) w) = (Inl err, w1)"
  shows "Search s ctx query maxPages w0 =
           (if p = 1 then (Inl (FetchFirstPageFailed err), w1)
            else (Inr (mk_result s query totalCount allRepos),
                  log_Printf (LogFetchWarning p err) w1))
         \<and> allRepos = records_upto s ctx query maxPages n w0 \<and> p = int n + 1"
  using assms(3,4) loop_state_at_records [OF assms(1)] loop_state_at_page [OF assms(1)]
  by (simp add: Search_from [OF assms(1,2)] search_page_def)

theorem Search_fetch_failure_witness:
  "fst (Search (ex_searcher 0 [status 200 ''mab'']) Background ''raft'' 3 w_init) =
     Inr \<lparr>Source = [], Query = ''raft'', TotalCount = 2,
          Items = [ex_repo CHR ''a'', ex_repo CHR ''b'']\<rparr>
   \<and> fst (Search (ex_searcher 0 []) Background ''raft'' 3 w_init) =
     Inl (FetchFirstPageFailed
            (FetchExhausted 3 (Some (RequestFailed (ErrorNew ''timeout'')))))"
proof -
  let ?s = "ex_searcher 0 [status 200 ''mab'']"
  let ?w = "snd (snd (snd (the (loop_state_at ?s Background ''raft'' 3 1 w_init))))"
  let ?f = "fetchWithRetries ?s Background ''raft++'' (log_Printf (LogFetching 2 ''raft++'') ?w)"
  have st: "loop_state_at ?s Background ''raft'' 3 1 w_init =
              Some (2, [ex_repo CHR ''a'', ex_repo CHR ''b''], 2, ?w)"
    by (simp add: ex_defs)
  have b: "buildSearchURL (implementation ?s) ''raft'' 2 perPage = Inr ''raft++''"
    by (simp add: ex_defs numeral_2_eq_2)
  have f: "?f = (Inl (FetchExhausted 3 (Some (RequestFailed (ErrorNew ''timeout'')))), snd ?f)"
    by (simp add: ex_defs)
  have "fst (Search ?s Background ''raft'' 3 w_init) =
          Inr (mk_result ?s ''raft'' 2 [ex_repo CHR ''a'', ex_repo CHR ''b''])"
    using Search_fetch_failure [OF st _ b f] by simp
  then have later: "fst (Search ?s Background ''raft'' 3 w_init) =
     Inr \<lparr>Source = [], Query = ''raft'', TotalCount = 2,
          Items = [ex_repo CHR ''a'', ex_repo CHR ''b'']\<rparr>"
    by (simp add: mk_result_def ex_searcher_def NewBaseRepoSearcher_def)
  let ?t = "ex_searcher 0 []"
  let ?g = "fetchWithRetries ?t Background ''raft+'' (log_Printf (LogFetching 1 ''raft+'') w_init)"
  have st1: "loop_state_at ?t Background ''raft'' 3 0 w_init = Some (1, [], 0, w_init)"
    by simp
  have b1: "buildSearchURL (implementation ?t) ''raft'' 1 perPage = Inr ''raft+''"
    by (simp add: ex_defs)
  have f1: "?g = (Inl (FetchExhausted 3 (Some (RequestFailed (ErrorNew ''timeout'')))), snd ?g)"
    by (simp add: ex_defs)
  have first: "fst (Search ?t Background ''raft'' 3 w_init) =
     Inl (FetchFirstPageFailed
            (FetchExhausted 3 (Some (RequestFailed (ErrorNew ''timeout'')))))"
    using Search_fetch_failure [OF st1 _ b1 f1] by simp
  from later first show ?thesis by simp
qed

text \<open>
  C3, as the code has it. When \<open>buildSearchURL\<close> returns an error for the page \<open>p\<close> a run
  has reached, whether \<open>p\<close> is 1 or later, \<open>Search\<close> returns at once with that error
  wrapped together with the page number and with no result; the records of the earlier
  pages are dropped and nothing more is fetched or logged.
\<close>

theorem Search_build_failure:
  assumes "loop_state_at s ctx query maxPages n w0 = Some (p, allRepos, totalCount, w)"
    and "p \<le> maxPages"
    and "buildSearchURL (implementation s) query p perPage = Inl err"
  shows "Search s ctx query maxPages w0 = (Inl (BuildURLFailed p err), w)"
  using assms(3) by (simp add: Search_from [OF assms(1,2)] search_page_def)

theorem Search_build_failure_witness:
  "fst (Search (ex_searcher 2 [status 200 ''mab'']) Background ''raft'' 3 w_init) =
     Inl (BuildURLFailed 2 (ErrorNew ''failed to parse base URL''))
   \<and> calls (snd (Search (ex_searcher 2 [status 200 ''mab'']) Background ''raft'' 3 w_init)) = 1"
proof -
  let ?s = "ex_searcher 2 [status 200 ''mab'']"
  let ?w = "snd (snd (snd (the (loop_state_at ?s Background ''raft'' 3 1 w_init))))"
  have st: "loop_state_at ?s Background ''raft'' 3 1 w_init =
              Some (2, [ex_repo CHR ''a'', ex_repo CHR ''b''], 2, ?w)"
    by (simp add: ex_defs)
  have b: "buildSearchURL (implementation ?s) ''raft'' 2 perPage =
             Inl (ErrorNew ''failed to parse base URL'')"
    by (simp add: ex_defs)
  have c: "calls ?w = 1"
    by (simp add: ex_defs)
  have "Search ?s Background ''raft'' 3 w_init =
          (Inl (BuildURLFailed 2 (ErrorNew ''failed to parse base URL'')), ?w)"
    using Search_build_failure [OF st _ b] by simp
  with c show ?thesis by simp
qed

text \<open>
  The claim as it was stated fails on a run whose first page parses to the records \<open>a\<close>
  and \<open>b\<close> with more to come, and whose adapter cannot build the URL of page 2: the run
  does reach page 2 with the two records, and \<open>Search\<close> returns the error, not them.
\<close>

theorem Search_build_failure_counterexample:
  "loop_state_at (ex_searcher 2 [status 200 ''mab'']) Background ''raft'' 3 1 w_init =
     Some (2, [ex_repo CHR ''a'', ex_repo CHR ''b''], 2,
           \<lparr>calls = 1, clock = 100000000,
            trace = [Log (LogFetching 1 ''raft+''),
                     Do \<lparr>req_ctx = Background, req_method = ''GET'', req_url = ''raft+'',
                        req_header = []\<rparr>,
                     Close ''mab'', Sleep 100000000]\<rparr>)
   \<and> buildSearchURL (implementation (ex_searcher 2 [status 200 ''mab''])) ''raft'' 2 perPage =
       Inl (ErrorNew ''failed to parse base URL'')
   \<and> fst (Search (ex_searcher 2 [status 200 ''mab'']) Background ''raft'' 3 w_init) \<noteq>
       Inr (mk_result (ex_searcher 2 [status 200 ''mab'']) ''raft'' 2
              [ex_repo CHR ''a'', ex_repo CHR ''b''])
   \<and> fst (Search (ex_searcher 2 [status 200 ''mab'']) Background ''raft'' 3 w_init) =
       Inl (BuildURLFailed 2 (ErrorNew ''failed to parse base URL''))"
  by (simp add: ex_defs)

text \<open>
  C4. Let a run of \<open>Search\<close> reach page \<open>p \<le> maxPages\<close> (\<open>p = 1\<close>
  included) with the records \<open>allRepos\<close> of the earlier pages, let the fetch of page \<open>p\<close>
  return a body and let \<open>parseSearchResponse\<close> return an error for it. Then \<open>Search\<close>
  returns the accumulated records as a result without an error, and all it still does
  is log the failure and close the body: the page is not fetched again.
\<close>

theorem Search_parse_failure:
  assumes "loop_state_at s ctx query maxPages n w0 = Some (p, allRepos, totalCount, w)"
    and "p \<le> maxPages"
    and "buildSearchURL (implementation s) query p perPage = Inr url"
    and "fetchWithRetries s ctx url (log_Printf (LogFetching p url) w) = (Inr (Some body), w1)"
    and "parseSearchResponse (implementation s) body = Inl err"
  shows "Search s ctx query maxPages w0 =
           (Inr (mk_result s query totalCount allRepos),
            body_Close body (log_Printf (LogParseWarning p err) w1))
         \<and> allRepos = records_upto s ctx query maxPages n w0 \<and> p = int n + 1"
  using assms(3,4,5) loop_state_at_records [OF assms(1)] loop_state_at_page [OF assms(1)]
  by (simp add: Search_from [OF assms(1,2)] search_page_def)

theorem Search_parse_failure_witness:
  "fst (Search (ex_searcher 0 [status 200 ''mab'', status 200 []]) Background ''raft'' 3 w_init) =
     Inr \<lparr>Source = [], Query = ''raft'', TotalCount = 2,
          Items = [ex_repo CHR ''a'', ex_repo CHR ''b'']\<rparr>
   \<and> calls (snd (Search (ex_searcher 0 [status 200 ''mab'', status 200 []]) Background ''raft'' 3
                    w_init)) = 2
   \<and> fst (Search (ex_searcher 0 [status 200 []]) Background ''raft'' 3 w_init) =
     Inr \<lparr>Source = [], Query = ''raft'', TotalCount = 0, Items = []\<rparr>"
proof -
  let ?s = "ex_searcher 0 [status 200 ''mab'', status 200 []]"
  let ?w = "snd (snd (snd (the (loop_state_at ?s Background ''raft'' 3 1 w_init))))"
  let ?f = "fetchWithRetries ?s Background ''raft++'' (log_Printf (LogFetching 2 ''raft++'') ?w)"
  have st: "loop_state_at ?s Background ''raft'' 3 1 w_init =
              Some (2, [ex_repo CHR ''a'', ex_repo CHR ''b''], 2, ?w)"
    by (simp add: ex_defs)
  have b: "buildSearchURL (implementation ?s) ''raft'' 2 perPage = Inr ''raft++''"
    by (simp add: ex_defs numeral_2_eq_2)
  have f: "?f = (Inr (Some []), snd ?f)"
    by (simp add: ex_defs)
  have c: "calls (snd ?f) = 2"
    by (simp add: ex_defs)
  have ps: "parseSearchResponse (implementation ?s) [] = Inl (ErrorNew ''EOF'')"
    by (simp add: ex_defs)
  have "Search ?s Background ''raft'' 3 w_init =
          (Inr (mk_result ?s ''raft'' 2 [ex_repo CHR ''a'', ex_repo CHR ''b'']),
           body_Close [] (log_Printf (LogParseWarning 2 (ErrorNew ''EOF'')) (snd ?f)))"
    using Search_parse_failure [OF st _ b f ps] by simp
  then have later: "fst (Search ?s Background ''raft'' 3 w_init) =
       Inr \<lparr>Source = [], Query = ''raft'', TotalCount = 2,
            Items = [ex_repo CHR ''a'', ex_repo CHR ''b'']\<rparr>
     \<and> calls (snd (Search ?s Background ''raft'' 3 w_init)) = 2"
    using c by (simp add: mk_result_def ex_searcher_def NewBaseRepoSearcher_def body_Close_def
        log_Printf_def)
  let ?t = "ex_searcher 0 [status 200 []]"
  let ?g = "fetchWithRetries ?t Background ''raft+'' (log_Printf (LogFetching 1 ''raft+'') w_init)"
  have st1: "loop_state_at ?t Background ''raft'' 3 0 w_init = Some (1, [], 0, w_init)"
    by simp
  have b1: "buildSearchURL (implementation ?t) ''raft'' 1 perPage = Inr ''raft+''"
    by (simp add: ex_defs)
  have f1: "?g = (Inr (Some []), snd ?g)"
    by (simp add: ex_defs)
  have ps1: "parseSearchResponse (implementation ?t) [] = Inl (ErrorNew ''EOF'')"
    by (simp add: ex_defs)
  have "Search ?t Background ''raft'' 3 w_init =
          (Inr (mk_result ?t ''raft'' 0 []),
           body_Close [] (log_Printf (LogParseWarning 1 (ErrorNew ''EOF'')) (snd ?g)))"
    using Search_parse_failure [OF st1 _ b1 f1 ps1] by simp
  then have first: "fst (Search ?t Background ''raft'' 3 w_init) =
       Inr \<lparr>Source = [], Query = ''raft'', TotalCount = 0, Items = []\<rparr>"
    by (simp add: mk_result_def ex_searcher_def NewBaseRepoSearcher_def)
  from later first show ?thesis by simp
qed



text \<open>
  C7. When \<open>Search\<close> returns a result and \<open>parseSearchResponse\<close> returned the total \<open>tc\<close> for
  page 1, the \<open>TotalCount\<close> of the result is \<open>tc\<close>, whatever the adapter, the client and the
  later pages are: totals returned for later pages have no effect.
\<close>

theorem Search_TotalCount_page1:
  assumes "fst (Search s ctx query maxPages w0) = Inr r"
    and "page_parse s ctx query maxPages 0 w0 = Some (Inr (repos, tc, hasMore))"
  shows "TotalCount r = tc"
proof -
  have q: "query \<noteq> []"
    using assms(1) by (auto simp: Search_def split: if_splits)
  from assms(2) have le: "1 \<le> maxPages"
    by (auto simp: page_parse_def split: if_splits)
  have st: "loop_state_at s ctx query maxPages 0 w0 = Some (1, [], 0, w0)"
    using q le by simp
  from assms(2) q le obtain url body w1 where
    b: "buildSearchURL (implementation s) query 1 perPage = Inr url"
    and f: "fetchWithRetries s ctx url (log_Printf (LogFetching 1 url) w0) = (Inr (Some body), w1)"
    and ps: "parseSearchResponse (implementation s) body = Inr (repos, tc, hasMore)"
    by (auto simp: page_parse_def split: sum.splits prod.splits option.splits)
  show ?thesis
  proof (cases "\<not> hasMore \<or> length repos = 0")
    case True
    then have "search_page s ctx query maxPages 1 [] 0 w0 =
                 (Broke, repos, tc, log_Printf (LogNoMore 1) (body_Close body w1))"
      using b f ps by (simp add: search_page_def)
    then have "fst (Search s ctx query maxPages w0) = Inr (mk_result s query tc repos)"
      by (simp add: Search_from [OF st le])
    with assms(1) show ?thesis by (auto simp: mk_result_def)
  next
    case False
    then obtain w2 where "search_page s ctx query maxPages 1 [] 0 w0 = (Continued, repos, tc, w2)"
      using b f ps by (simp add: search_page_def Let_def)
    then have "Search s ctx query maxPages w0 = search_loop s ctx query maxPages 2 repos tc w2"
      by (simp add: Search_from [OF st le])
    with assms(1) show ?thesis
      using search_loop_totalCount [of 2 s ctx query maxPages repos tc w2 r] by simp
  qed
qed

theorem Search_TotalCount_page1_witness:
  "page_parse (ex_searcher 0 [status 200 ''mab'', status 200 ''-cde'']) Background ''raft'' 3 1
     w_init =
     Some (Inr ([ex_repo CHR ''c'', ex_repo CHR ''d'', ex_repo CHR ''e''], 3, False))
   \<and> TotalCount (projr (fst (Search (ex_searcher 0 [status 200 ''mab'', status 200 ''-cde''])
                               Background ''raft'' 3 w_init))) = 2"
proof -
  let ?s = "ex_searcher 0 [status 200 ''mab'', status 200 ''-cde'']"
  let ?r = "projr (fst (Search ?s Background ''raft'' 3 w_init))"
  have pp0: "page_parse ?s Background ''raft'' 3 0 w_init =
              Some (Inr ([ex_repo CHR ''a'', ex_repo CHR ''b''], 2, True))"
    by (simp add: ex_defs)
  have pp1: "page_parse ?s Background ''raft'' 3 1 w_init =
              Some (Inr ([ex_repo CHR ''c'', ex_repo CHR ''d'', ex_repo CHR ''e''], 3, False))"
    by (simp add: ex_defs numeral_2_eq_2)
  have r: "fst (Search ?s Background ''raft'' 3 w_init) = Inr ?r"
    by (simp add: ex_defs)
  from Search_TotalCount_page1 [OF r pp0] pp1 show ?thesis by simp
qed

text \<open>
  C10. When \<open>Search\<close> returns a result although \<open>parseSearchResponse\<close> did not return
  records for page 1 (page 1 was fetched and its body did not parse), the result has
  \<open>TotalCount = 0\<close>, the zero value of the variable and not the \<open>-1\<close> that the adapters use
  for an unknown total, and no items.
\<close>

theorem Search_TotalCount_zero:
  assumes "fst (Search s ctx query maxPages w0) = Inr r"
    and "\<forall>x. page_parse s ctx query maxPages 0 w0 \<noteq> Some (Inr x)"
  shows "TotalCount r = 0 \<and> Items r = [] \<and> TotalCount r \<noteq> - 1"
proof -
  have q: "query \<noteq> []" and le: "1 \<le> maxPages"
    using assms(1) by (auto simp: Search_def split: if_splits)
  have st: "loop_state_at s ctx query maxPages 0 w0 = Some (1, [], 0, w0)"
    using q le by simp
  note S = Search_from [OF st le]
  obtain url where b: "buildSearchURL (implementation s) query 1 perPage = Inr url"
    using assms(1) by (cases "buildSearchURL (implementation s) query 1 perPage")
      (auto simp: S search_page_def)
  obtain res w1 where f: "fetchWithRetries s ctx url (log_Printf (LogFetching 1 url) w0) = (res, w1)"
    by (cases "fetchWithRetries s ctx url (log_Printf (LogFetching 1 url) w0)") auto
  obtain body where res: "res = Inr (Some body)"
    using assms(1) b f fetchWithRetries_not_nil [of s ctx url "log_Printf (LogFetching 1 url) w0" w1]
    by (cases res) (auto simp: S search_page_def)
  have "page_parse s ctx query maxPages 0 w0 = Some (parseSearchResponse (implementation s) body)"
    using q le b f res by (simp add: page_parse_def)
  with assms(2) obtain err where "parseSearchResponse (implementation s) body = Inl err"
    by (cases "parseSearchResponse (implementation s) body") auto
  then have "fst (Search s ctx query maxPages w0) = Inr (mk_result s query 0 [])"
    using b f res by (simp add: S search_page_def)
  with assms(1) show ?thesis by (auto simp: mk_result_def)
qed

theorem Search_TotalCount_zero_witness:
  "page_parse (ex_searcher 0 [status 200 []]) Background ''raft'' 3 0 w_init =
     Some (Inl (ErrorNew ''EOF''))
   \<and> fst (Search (ex_searcher 0 [status 200 []]) Background ''raft'' 3 w_init) =
     Inr \<lparr>Source = [], Query = ''raft'', TotalCount = 0, Items = []\<rparr>"
proof -
  let ?s = "ex_searcher 0 [status 200 []]"
  let ?r = "projr (fst (Search ?s Background ''raft'' 3 w_init))"
  have pp: "page_parse ?s Background ''raft'' 3 0 w_init = Some (Inl (ErrorNew ''EOF''))"
    by (simp add: ex_defs)
  then have n: "\<forall>x. page_parse ?s Background ''raft'' 3 0 w_init \<noteq> Some (Inr x)"
    by simp
  have r: "fst (Search ?s Background ''raft'' 3 w_init) = Inr ?r"
    by (simp add: ex_defs)
  have "Source ?r = [] \<and> Query ?r = ''raft''"
    by (simp add: ex_defs)
  with Search_TotalCount_zero [OF r n] have "?r = \<lparr>Source = [], Query = ''raft'', TotalCount = 0, Items = []\<rparr>"
    by (cases ?r) simp
  with r pp show ?thesis by simp
qed

section \<open>Claims on the Retrying Fetcher\<close>

text \<open>
  C2, as the code has it. Let the request for an attempt be built. The outcome of the
  HTTP call falls into exactly one of three classes. A response with status 200, and
  no other status, is the success: its body is returned at once. A response with
  status 401, 403 or 404 is fatal: its body is closed and the status error is returned
  at once, with no sleep and no further call. Every other outcome (a transport error
  or any other status, the other 2xx statuses included) is retried: the loop records
  the error, sleeps for the current delay, doubles it and goes on with the next
  attempt.
\<close>

theorem fetch_loop_classes:
  assumes "i < MaxRetries s"
    and "buildSearchRequest (implementation s) ctx url = Inr req"
  shows "(\<forall>resp. HTTPClient s (calls w) req = Inr resp \<and> StatusCode resp = 200 \<longrightarrow>
            fetch_loop s ctx url i lastErr delay w =
              (Inr (Some (Body resp)), snd (client_Do s req w)))
       \<and> (\<forall>resp. HTTPClient s (calls w) req = Inr resp
                 \<and> (StatusCode resp = 401 \<or> StatusCode resp = 403 \<or> StatusCode resp = 404) \<longrightarrow>
            fetch_loop s ctx url i lastErr delay w =
              (Inl (ApiStatusFailed (StatusCode resp) (Body resp)),
               body_Close (Body resp) (snd (client_Do s req w))))
       \<and> (retried (HTTPClient s (calls w) req) \<longrightarrow>
            (\<exists>w'. fetch_loop s ctx url i lastErr delay w =
                     fetch_loop s ctx url (i + 1)
                       (Some (attempt_error (HTTPClient s (calls w) req))) (delay * 2) w'
                  \<and> calls w' = Suc (calls w)
                  \<and> clock w' = clock w + slept delay
                  \<and> sleeps (trace w') = sleeps (trace w) @ [delay]))
       \<and> ((\<exists>resp. HTTPClient s (calls w) req = Inr resp \<and> StatusCode resp = 200)
          \<or> (\<exists>resp. HTTPClient s (calls w) req = Inr resp
                 \<and> (StatusCode resp = 401 \<or> StatusCode resp = 403 \<or> StatusCode resp = 404))
          \<or> retried (HTTPClient s (calls w) req))"
proof (intro conjI allI impI)
  fix resp
  assume "HTTPClient s (calls w) req = Inr resp \<and> StatusCode resp = 200"
  then show "fetch_loop s ctx url i lastErr delay w =
               (Inr (Some (Body resp)), snd (client_Do s req w))"
    using assms by (subst fetch_loop.simps) (simp add: client_Do_def)
next
  fix resp
  assume "HTTPClient s (calls w) req = Inr resp
            \<and> (StatusCode resp = 401 \<or> StatusCode resp = 403 \<or> StatusCode resp = 404)"
  then show "fetch_loop s ctx url i lastErr delay w =
               (Inl (ApiStatusFailed (StatusCode resp) (Body resp)),
                body_Close (Body resp) (snd (client_Do s req w)))"
    using assms by (subst fetch_loop.simps) (auto simp: client_Do_def Let_def)
next
  assume "retried (HTTPClient s (calls w) req)"
  then show "\<exists>w'. fetch_loop s ctx url i lastErr delay w =
                     fetch_loop s ctx url (i + 1)
                       (Some (attempt_error (HTTPClient s (calls w) req))) (delay * 2) w'
                  \<and> calls w' = Suc (calls w)
                  \<and> clock w' = clock w + slept delay
                  \<and> sleeps (trace w') = sleeps (trace w) @ [delay]"
    by (rule fetch_loop_retry_step [OF assms])
next
  show "(\<exists>resp. HTTPClient s (calls w) req = Inr resp \<and> StatusCode resp = 200)
          \<or> (\<exists>resp. HTTPClient s (calls w) req = Inr resp
                 \<and> (StatusCode resp = 401 \<or> StatusCode resp = 403 \<or> StatusCode resp = 404))
          \<or> retried (HTTPClient s (calls w) req)"
    by (cases "HTTPClient s (calls w) req") (auto simp: retried_def)
qed

theorem fetch_loop_classes_witness:
  "fetchWithRetries (ex_searcher 0 [status 200 ''mab'']) Background ''u'' w_init =
     (Inr (Some ''mab''),
      \<lparr>calls = 1, clock = 0,
       trace = [Do \<lparr>req_ctx = Background, req_method = ''GET'', req_url = ''u'',
                   req_header = []\<rparr>]\<rparr>)
   \<and> fetchWithRetries (ex_searcher 0 [status 404 ''gone'']) Background ''u'' w_init =
       (Inl (ApiStatusFailed 404 ''gone''),
        \<lparr>calls = 1, clock = 0,
         trace = [Do \<lparr>req_ctx = Background, req_method = ''GET'', req_url = ''u'',
                     req_header = []\<rparr>,
                  Close ''gone'']\<rparr>)
   \<and> (\<exists>w'. fetchWithRetries (ex_searcher 0 [status 500 ''busy'']) Background ''u'' w_init =
              fetch_loop (ex_searcher 0 [status 500 ''busy'']) Background ''u'' 1
                (Some (ApiStatusFailed 500 ''busy'')) 2000000000 w'
           \<and> calls w' = 1 \<and> clock w' = 1000000000 \<and> sleeps (trace w') = [1000000000])"
proof -
  let ?s = "ex_searcher 0 [status 200 ''mab'']"
  let ?t = "ex_searcher 0 [status 404 ''gone'']"
  let ?u = "ex_searcher 0 [status 500 ''busy'']"
  let ?req = "\<lparr>req_ctx = Background, req_method = ''GET'', req_url = ''u'', req_header = []\<rparr>"
  have i: "0 < MaxRetries ?s" "0 < MaxRetries ?t" "0 < MaxRetries ?u"
    by (simp_all add: ex_defs)
  have rq: "buildSearchRequest (implementation ?s) Background ''u'' = Inr ?req"
    "buildSearchRequest (implementation ?t) Background ''u'' = Inr ?req"
    "buildSearchRequest (implementation ?u) Background ''u'' = Inr ?req"
    by (simp_all add: ex_defs)
  have o: "HTTPClient ?s (calls w_init) ?req = Inr \<lparr>StatusCode = 200, Body = ''mab''\<rparr>"
    "HTTPClient ?t (calls w_init) ?req = Inr \<lparr>StatusCode = 404, Body = ''gone''\<rparr>"
    "HTTPClient ?u (calls w_init) ?req = Inr \<lparr>StatusCode = 500, Body = ''busy''\<rparr>"
    by (simp_all add: ex_defs)
  have "fetchWithRetries ?s Background ''u'' w_init =
          (Inr (Some ''mab''), snd (client_Do ?s ?req w_init))"
    using fetch_loop_classes [OF i(1) rq(1), of w_init None "RetryDelay ?s"] o(1)
    by (simp add: fetchWithRetries_def)
  then have first: "fetchWithRetries ?s Background ''u'' w_init =
       (Inr (Some ''mab''), \<lparr>calls = 1, clock = 0, trace = [Do ?req]\<rparr>)"
    by (simp add: client_Do_def w_init_def)
  have "fetchWithRetries ?t Background ''u'' w_init =
          (Inl (ApiStatusFailed 404 ''gone''), body_Close ''gone'' (snd (client_Do ?t ?req w_init)))"
    using fetch_loop_classes [OF i(2) rq(2), of w_init None "RetryDelay ?t"] o(2)
    by (simp add: fetchWithRetries_def)
  then have second: "fetchWithRetries ?t Background ''u'' w_init =
       (Inl (ApiStatusFailed 404 ''gone''),
        \<lparr>calls = 1, clock = 0, trace = [Do ?req, Close ''gone'']\<rparr>)"
    by (simp add: body_Close_def client_Do_def w_init_def)
  have r: "retried (HTTPClient ?u (calls w_init) ?req)"
    by (simp add: o(3) retried_def)
  have d: "RetryDelay ?u = 1000000000" "slept (1000000000 :: duration) = 1000000000"
    "HTTPClient ?u 0 ?req = Inr \<lparr>StatusCode = 500, Body = ''busy''\<rparr>"
    by (simp_all add: ex_defs slept_def)
  from fetch_loop_classes [OF i(3) rq(3), of w_init None "RetryDelay ?u"] r
  have "\<exists>w'. fetch_loop ?u Background ''u'' 0 None (RetryDelay ?u) w_init =
              fetch_loop ?u Background ''u'' (0 + 1)
                (Some (attempt_error (HTTPClient ?u (calls w_init) ?req))) (RetryDelay ?u * 2) w'
           \<and> calls w' = Suc (calls w_init)
           \<and> clock w' = clock w_init + slept (RetryDelay ?u)
           \<and> sleeps (trace w') = sleeps (trace w_init) @ [RetryDelay ?u]"
    by blast
  then have third: "\<exists>w'. fetchWithRetries ?u Background ''u'' w_init =
              fetch_loop ?u Background ''u'' 1 (Some (ApiStatusFailed 500 ''busy'')) 2000000000 w'
           \<and> calls w' = 1 \<and> clock w' = 1000000000 \<and> sleeps (trace w') = [1000000000]"
    by (simp add: d attempt_error_def fetchWithRetries_def w_init_def)
  from first second third show ?thesis by blast
qed

text \<open>
  The claim as it was stated fails for the status 204, which is a 2xx status: with the
  default configuration the fetcher retries it three times, sleeping 1, 2 and 4
  seconds, and then reports failure instead of returning the body.
\<close>

theorem fetchWithRetries_2xx_counterexample:
  "fetchWithRetries (ex_searcher 0 [status 204 [], status 204 [], status 204 []]) Background ''u''
     w_init =
     (Inl (FetchExhausted 3 (Some (ApiStatusFailed 204 []))),
      \<lparr>calls = 3, clock = 7000000000,
       trace = [Do \<lparr>req_ctx = Background, req_method = ''GET'', req_url = ''u'', req_header = []\<rparr>,
                Close [], Log (LogAttemptStatus 1 3 204 1000000000), Sleep 1000000000,
                Do \<lparr>req_ctx = Background, req_method = ''GET'', req_url = ''u'', req_header = []\<rparr>,
                Close [], Log (LogAttemptStatus 2 3 204 2000000000), Sleep 2000000000,
                Do \<lparr>req_ctx = Background, req_method = ''GET'', req_url = ''u'', req_header = []\<rparr>,
                Close [], Log (LogAttemptStatus 3 3 204 4000000000), Sleep 4000000000]\<rparr>)"
  by (simp add: ex_defs)

text \<open>
  C6, as the code has it. \<open>fetchWithRetries\<close> never makes more HTTP calls than
  \<open>MaxRetries\<close> (3 in a searcher made by \<open>NewBaseRepoSearcher\<close>). Its backoff sleeps are, in
  every run, the first ones of the delays \<open>RetryDelay * 2 ^ k\<close> for \<open>k = 0, 1, \<dots>\<close>, at most
  \<open>MaxRetries\<close> of them: each delay is the one before doubled in the signed 64-bit
  arithmetic of \<open>time.Duration\<close>. It is at least twice the one before whenever the last
  delay of the policy, \<open>RetryDelay * 2 ^ (MaxRetries - 1)\<close>, is in the range of
  \<open>time.Duration\<close>, as with the 1, 2 and 4 seconds of the default policy. When
  \<open>MaxRetries \<ge> 1\<close> and every attempt ends in an outcome that is retried, it makes
  exactly \<open>MaxRetries\<close> calls, sleeps after each, and returns the error that wraps the
  attempt count \<open>MaxRetries\<close> and the error of the last attempt.
\<close>

theorem fetchWithRetries_transient:
  "calls (snd (fetchWithRetries s ctx url w)) \<le> calls w + nat (MaxRetries s)
   \<and> (\<exists>m \<le> nat (MaxRetries s).
         sleeps (trace (snd (fetchWithRetries s ctx url w))) =
           sleeps (trace w) @ map (\<lambda>k. RetryDelay s * 2 ^ k) [0..<m])
   \<and> (- (2 ^ 63) \<le> sint (RetryDelay s) * 2 ^ (nat (MaxRetries s) - 1)
       \<and> sint (RetryDelay s) * 2 ^ (nat (MaxRetries s) - 1) < 2 ^ 63
      \<longrightarrow> (\<forall>k. Suc k < nat (MaxRetries s) \<longrightarrow>
             2 * sint (RetryDelay s * 2 ^ k) \<le> sint (RetryDelay s * 2 ^ Suc k)))
   \<and> (1 \<le> MaxRetries s
       \<and> buildSearchRequest (implementation s) ctx url = Inr req
       \<and> (\<forall>k < nat (MaxRetries s). retried (HTTPClient s (calls w + k) req))
      \<longrightarrow> fst (fetchWithRetries s ctx url w) =
            Inl (FetchExhausted (MaxRetries s)
                   (Some (attempt_error (HTTPClient s (calls w + nat (MaxRetries s) - 1) req))))
        \<and> calls (snd (fetchWithRetries s ctx url w)) = calls w + nat (MaxRetries s)
        \<and> sleeps (trace (snd (fetchWithRetries s ctx url w))) =
            sleeps (trace w) @ map (\<lambda>k. RetryDelay s * 2 ^ k) [0..<nat (MaxRetries s)])"
proof (intro conjI impI)
  show "calls (snd (fetchWithRetries s ctx url w)) \<le> calls w + nat (MaxRetries s)"
    using fetch_loop_calls_le [of s ctx url 0 None "RetryDelay s" w]
    by (simp add: fetchWithRetries_def)
next
  show "\<exists>m \<le> nat (MaxRetries s).
         sleeps (trace (snd (fetchWithRetries s ctx url w))) =
           sleeps (trace w) @ map (\<lambda>k. RetryDelay s * 2 ^ k) [0..<m]"
    using fetch_loop_sleeps [of s 0 ctx url None "RetryDelay s" w]
    by (simp add: fetchWithRetries_def)
next
  assume "- (2 ^ 63) \<le> sint (RetryDelay s) * 2 ^ (nat (MaxRetries s) - 1)
            \<and> sint (RetryDelay s) * 2 ^ (nat (MaxRetries s) - 1) < 2 ^ 63"
  then show "\<forall>k. Suc k < nat (MaxRetries s) \<longrightarrow>
               2 * sint (RetryDelay s * 2 ^ k) \<le> sint (RetryDelay s * 2 ^ Suc k)"
    using sint_doubled [of "RetryDelay s" "nat (MaxRetries s)"] by auto
next
  assume h: "1 \<le> MaxRetries s
       \<and> buildSearchRequest (implementation s) ctx url = Inr req
       \<and> (\<forall>k < nat (MaxRetries s). retried (HTTPClient s (calls w + k) req))"
  then have "\<forall>k < nat (MaxRetries s - 0). retried (HTTPClient s (calls w + k) req)" by simp
  note E = fetch_loop_exhaust [of s ctx url req 0 w None "RetryDelay s", OF _ this]
  show "fst (fetchWithRetries s ctx url w) =
            Inl (FetchExhausted (MaxRetries s)
                   (Some (attempt_error (HTTPClient s (calls w + nat (MaxRetries s) - 1) req))))"
    using E h by (simp add: fetchWithRetries_def)
  show "calls (snd (fetchWithRetries s ctx url w)) = calls w + nat (MaxRetries s)"
    using E h by (simp add: fetchWithRetries_def)
  show "sleeps (trace (snd (fetchWithRetries s ctx url w))) =
            sleeps (trace w) @ map (\<lambda>k. RetryDelay s * 2 ^ k) [0..<nat (MaxRetries s)]"
    using E h by (simp add: fetchWithRetries_def)
qed

theorem fetchWithRetries_transient_witness:
  "MaxRetries (NewBaseRepoSearcher (ex_adapter 0) [] (scripted [status 503 ''busy''])) = 3
   \<and> fst (fetchWithRetries (NewBaseRepoSearcher (ex_adapter 0) [] (scripted [status 503 ''busy'']))
           Background ''u'' w_init) =
       Inl (FetchExhausted 3 (Some (RequestFailed (ErrorNew ''timeout''))))
   \<and> calls (snd (fetchWithRetries
                   (NewBaseRepoSearcher (ex_adapter 0) [] (scripted [status 503 ''busy'']))
                   Background ''u'' w_init)) = 3
   \<and> sleeps (trace (snd (fetchWithRetries
                   (NewBaseRepoSearcher (ex_adapter 0) [] (scripted [status 503 ''busy'']))
                   Background ''u'' w_init))) = [1000000000, 2000000000, 4000000000]
   \<and> 2 * sint (1000000000 :: duration) \<le> sint (2000000000 :: duration)
   \<and> 2 * sint (2000000000 :: duration) \<le> sint (4000000000 :: duration)"
proof -
  let ?s = "NewBaseRepoSearcher (ex_adapter 0) [] (scripted [status 503 ''busy''])"
  let ?req = "\<lparr>req_ctx = Background, req_method = ''GET'', req_url = ''u'', req_header = []\<rparr>"
  let ?f = "fetchWithRetries ?s Background ''u'' w_init"
  have m: "MaxRetries ?s = 3" and d: "RetryDelay ?s = 1000000000"
    by (simp_all add: ex_defs)
  have rq: "buildSearchRequest (implementation ?s) Background ''u'' = Inr ?req"
    by (simp add: ex_defs)
  have three: "k < 3 \<longleftrightarrow> k = 0 \<or> k = 1 \<or> k = 2" for k :: nat
    by auto
  have rt: "\<forall>k < nat (MaxRetries ?s). retried (HTTPClient ?s (calls w_init + k) ?req)"
    by (auto simp: m three) (simp_all add: ex_defs retried_def)
  have fit: "- (2 ^ 63) \<le> sint (RetryDelay ?s) * 2 ^ (nat (MaxRetries ?s) - 1)
               \<and> sint (RetryDelay ?s) * 2 ^ (nat (MaxRetries ?s) - 1) < 2 ^ 63"
    by (simp add: m d)
  have last: "attempt_error (HTTPClient ?s (calls w_init + nat (MaxRetries ?s) - 1) ?req) =
                RequestFailed (ErrorNew ''timeout'')"
    by (simp add: ex_defs attempt_error_def)
  have up: "map (\<lambda>k. (1000000000 :: duration) * 2 ^ k) [0..<3] =
              [1000000000, 2000000000, 4000000000]"
    by (simp add: upt_rec)
  note T = fetchWithRetries_transient [of ?s Background "''u''" w_init ?req]
  have one: "1 \<le> MaxRetries ?s" by (simp add: m)
  from T [THEN conjunct2, THEN conjunct2, THEN conjunct2] one rq rt
  have r: "fst ?f = Inl (FetchExhausted (MaxRetries ?s)
                     (Some (attempt_error (HTTPClient ?s (calls w_init + nat (MaxRetries ?s) - 1) ?req))))"
    and c: "calls (snd ?f) = calls w_init + nat (MaxRetries ?s)"
    and sl: "sleeps (trace (snd ?f)) =
               sleeps (trace w_init) @ map (\<lambda>k. RetryDelay ?s * 2 ^ k) [0..<nat (MaxRetries ?s)]"
    by blast+
  from T [THEN conjunct2, THEN conjunct2, THEN conjunct1] fit
  have dbl: "\<forall>k. Suc k < nat (MaxRetries ?s) \<longrightarrow>
               2 * sint (RetryDelay ?s * 2 ^ k) \<le> sint (RetryDelay ?s * 2 ^ Suc k)"
    by blast
  have "fst ?f = Inl (FetchExhausted 3 (Some (RequestFailed (ErrorNew ''timeout''))))"
    using r last by (simp add: m)
  moreover have "calls (snd ?f) = 3"
    using c by (simp add: m w_init_def)
  moreover have "sleeps (trace (snd ?f)) = [1000000000, 2000000000, 4000000000]"
    using sl by (simp add: m d up w_init_def)
  moreover have "2 * sint (1000000000 :: duration) \<le> sint (2000000000 :: duration)"
    using dbl [rule_format, of 0] by (simp add: m d)
  moreover have "2 * sint (2000000000 :: duration) \<le> sint (4000000000 :: duration)"
    using dbl [rule_format, of 1] by (simp add: m d)
  ultimately show ?thesis using m by simp
qed

text \<open>
  The claim as it was stated fails for a searcher with \<open>MaxRetries = 2\<close> and a
  \<open>RetryDelay\<close> of \<open>2 ^ 62\<close> nanoseconds whose two attempts fail: the second delay is the
  first one doubled in 64 bits, which is \<open>- 2 ^ 63\<close> and not at least twice the first.
\<close>

theorem backoff_doubling_counterexample:
  "sleeps (trace (snd (fetchWithRetries
      ((ex_searcher 0 [])\<lparr>MaxRetries := 2, RetryDelay := 4611686018427387904\<rparr>)
      Background ''u'' w_init))) = [4611686018427387904, 9223372036854775808]
   \<and> sint (4611686018427387904 :: duration) = 4611686018427387904
   \<and> sint (9223372036854775808 :: duration) = - 9223372036854775808
   \<and> \<not> 2 * sint (4611686018427387904 :: duration) \<le> sint (9223372036854775808 :: duration)"
  by (simp add: ex_defs)

section \<open>Claims on the suspension points\<close>

text \<open>
  C8, as the code has it. The backoff sleeps of the fetcher and the pacing delay between
  pages are calls of \<open>time.Sleep\<close>, which takes no context: each runs for its full
  duration whatever the context is, also when its deadline has passed before the sleep
  starts or passes during it. When every attempt of a fetch ends in an outcome that is
  retried, the fetch sleeps for the sum of all its backoff delays; when the page loop
  goes on after a page that is not the last, it sleeps for the full 100 milliseconds.
  The context reaches only \<open>buildSearchRequest\<close>.
\<close>

theorem sleeps_run_in_full:
  "(buildSearchRequest (implementation s) ctx url = Inr req
      \<and> (\<forall>k < nat (MaxRetries s). retried (HTTPClient s (calls w + k) req))
     \<longrightarrow> clock (snd (fetchWithRetries s ctx url w)) =
           clock w + (\<Sum>k<nat (MaxRetries s). slept (RetryDelay s * 2 ^ k)))
   \<and> (page < maxPages
      \<and> search_page s ctx query maxPages page allRepos totalCount w =
          (Continued, allRepos', totalCount', w')
     \<longrightarrow> (\<exists>url body w1.
            buildSearchURL (implementation s) query page perPage = Inr url
            \<and> fetchWithRetries s ctx url (log_Printf (LogFetching page url) w) = (Inr (Some body), w1)
            \<and> clock w' = clock w1 + 100000000
            \<and> sleeps (trace w') = sleeps (trace w1) @ [100 * Millisecond]))"
proof (intro conjI impI)
  assume h: "buildSearchRequest (implementation s) ctx url = Inr req
      \<and> (\<forall>k < nat (MaxRetries s). retried (HTTPClient s (calls w + k) req))"
  then have "\<forall>k < nat (MaxRetries s - 0). retried (HTTPClient s (calls w + k) req)" by simp
  from fetch_loop_exhaust [of s ctx url req 0 w None "RetryDelay s", OF _ this] h
  show "clock (snd (fetchWithRetries s ctx url w)) =
           clock w + (\<Sum>k<nat (MaxRetries s). slept (RetryDelay s * 2 ^ k))"
    by (simp add: fetchWithRetries_def)
next
  assume h: "page < maxPages
      \<and> search_page s ctx query maxPages page allRepos totalCount w =
          (Continued, allRepos', totalCount', w')"
  then have lt: "page < maxPages"
    and pg: "search_page s ctx query maxPages page allRepos totalCount w =
               (Continued, allRepos', totalCount', w')"
    by simp_all
  from search_page_Continued [OF pg] obtain url body w1 repos t where
    b: "buildSearchURL (implementation s) query page perPage = Inr url"
    and f: "fetchWithRetries s ctx url (log_Printf (LogFetching page url) w) = (Inr (Some body), w1)"
    and ps: "parseSearchResponse (implementation s) body = Inr (repos, t, True)"
    and ne: "repos \<noteq> []"
    by blast
  have "w' = time_Sleep (100 * Millisecond) (body_Close body w1)"
    using pg lt b f ps ne by (simp add: search_page_def Let_def)
  then have "clock w' = clock w1 + 100000000
               \<and> sleeps (trace w') = sleeps (trace w1) @ [100 * Millisecond]"
    by (simp add: time_Sleep_def slept_def body_Close_def Millisecond_def sleeps_append)
  with b f show "\<exists>url body w1.
            buildSearchURL (implementation s) query page perPage = Inr url
            \<and> fetchWithRetries s ctx url (log_Printf (LogFetching page url) w) = (Inr (Some body), w1)
            \<and> clock w' = clock w1 + 100000000
            \<and> sleeps (trace w') = sleeps (trace w1) @ [100 * Millisecond]"
    by blast
qed

theorem sleeps_run_in_full_witness:
  "ctx_done (WithDeadline 0) (clock w_init)
   \<and> clock (snd (fetchWithRetries (ex_searcher 0 []) (WithDeadline 0) ''u'' w_init)) = 7000000000
   \<and> \<not> ctx_done (WithDeadline 50000000) (clock w_init)
   \<and> (\<exists>w'. search_page (ex_searcher 0 [status 200 ''mab'']) (WithDeadline 50000000) ''raft'' 2 1
              [] 0 w_init = (Continued, [ex_repo CHR ''a'', ex_repo CHR ''b''], 2, w')
           \<and> clock w' = 100000000 \<and> ctx_done (WithDeadline 50000000) (clock w'))"
proof -
  let ?s = "ex_searcher 0 []"
  let ?req = "\<lparr>req_ctx = WithDeadline 0, req_method = ''GET'', req_url = ''u'', req_header = []\<rparr>"
  have m: "nat (MaxRetries ?s) = 3" and d: "RetryDelay ?s = 1000000000"
    by (simp_all add: ex_defs)
  have rq: "buildSearchRequest (implementation ?s) (WithDeadline 0) ''u'' = Inr ?req"
    by (simp add: ex_defs)
  have rt: "\<forall>k < nat (MaxRetries ?s). retried (HTTPClient ?s (calls w_init + k) ?req)"
    by (simp add: ex_defs retried_def)
  have sm: "(\<Sum>k<3. slept ((1000000000 :: duration) * 2 ^ k)) = 7000000000"
    by (simp add: slept_def numeral_3_eq_3)
  from sleeps_run_in_full [where s = ?s and ctx = "WithDeadline 0" and url = "''u''"
      and req = ?req and w = w_init] rq rt
  have "clock (snd (fetchWithRetries ?s (WithDeadline 0) ''u'' w_init)) =
          clock w_init + (\<Sum>k<nat (MaxRetries ?s). slept (RetryDelay ?s * 2 ^ k))"
    by blast
  then have backoff: "clock (snd (fetchWithRetries ?s (WithDeadline 0) ''u'' w_init)) = 7000000000"
    by (simp add: m d sm w_init_def)
  let ?t = "ex_searcher 0 [status 200 ''mab'']"
  let ?c = "WithDeadline 50000000"
  let ?p = "search_page ?t ?c ''raft'' 2 1 [] 0 w_init"
  let ?w' = "snd (snd (snd ?p))"
  let ?f = "fetchWithRetries ?t ?c ''raft+'' (log_Printf (LogFetching 1 ''raft+'') w_init)"
  have pg: "?p = (Continued, [ex_repo CHR ''a'', ex_repo CHR ''b''], 2, ?w')"
    by (simp add: ex_defs)
  have f: "?f = (Inr (Some ''mab''), snd ?f)" and c1: "clock (snd ?f) = 0"
    by (simp_all add: ex_defs)
  from sleeps_run_in_full [where s = ?t and ctx = ?c and page = 1 and maxPages = 2
      and query = "''raft''" and allRepos = "[]" and totalCount = 0 and w = w_init
      and allRepos' = "[ex_repo CHR ''a'', ex_repo CHR ''b'']" and totalCount' = 2 and w' = ?w'
      and url = "[]" and req = ?req, THEN conjunct2] pg
  have "\<exists>url body w1.
          buildSearchURL (implementation ?t) ''raft'' 1 perPage = Inr url
          \<and> fetchWithRetries ?t ?c url (log_Printf (LogFetching 1 url) w_init) = (Inr (Some body), w1)
          \<and> clock ?w' = clock w1 + 100000000
          \<and> sleeps (trace ?w') = sleeps (trace w1) @ [100 * Millisecond]"
    by simp
  then obtain url body w1 where
    "buildSearchURL (implementation ?t) ''raft'' 1 perPage = Inr url"
    and "fetchWithRetries ?t ?c url (log_Printf (LogFetching 1 url) w_init) = (Inr (Some body), w1)"
    and cl: "clock ?w' = clock w1 + 100000000"
    by blast
  moreover have "buildSearchURL (implementation ?t) ''raft'' 1 perPage = Inr ''raft+''"
    by (simp add: ex_defs)
  ultimately have "w1 = snd ?f"
    by (metis Pair_inject f sum.inject(2))
  with cl c1 have "clock ?w' = 100000000"
    by simp
  with pg have pacing: "\<exists>w'. ?p = (Continued, [ex_repo CHR ''a'', ex_repo CHR ''b''], 2, w')
           \<and> clock w' = 100000000 \<and> ctx_done ?c (clock w')"
    by (intro exI [of _ ?w']) simp
  from backoff pacing show ?thesis
    by (simp add: w_init_def)
qed

text \<open>
  The claim as it was stated fails. With a context whose deadline has passed before the
  fetch starts and a client that fails every call, the fetcher still sleeps 1, 2 and 4
  seconds in full. With a deadline 50 milliseconds after the start, the pacing delay
  after page 1 starts before the deadline and ends 50 milliseconds after it.
\<close>

theorem sleeps_cancellable_counterexample:
  "ctx_done (WithDeadline 0) (clock w_init)
   \<and> fetchWithRetries (ex_searcher 0 []) (WithDeadline 0) ''u'' w_init =
       (Inl (FetchExhausted 3 (Some (RequestFailed (ErrorNew ''timeout'')))),
        \<lparr>calls = 3, clock = 7000000000,
         trace = [Do \<lparr>req_ctx = WithDeadline 0, req_method = ''GET'', req_url = ''u'',
                     req_header = []\<rparr>,
                  Log (LogAttemptFailed 1 3 (ErrorNew ''timeout'') 1000000000), Sleep 1000000000,
                  Do \<lparr>req_ctx = WithDeadline 0, req_method = ''GET'', req_url = ''u'',
                     req_header = []\<rparr>,
                  Log (LogAttemptFailed 2 3 (ErrorNew ''timeout'') 2000000000), Sleep 2000000000,
                  Do \<lparr>req_ctx = WithDeadline 0, req_method = ''GET'', req_url = ''u'',
                     req_header = []\<rparr>,
                  Log (LogAttemptFailed 3 3 (ErrorNew ''timeout'') 4000000000),
                  Sleep 4000000000]\<rparr>)
   \<and> \<not> ctx_done (WithDeadline 50000000) (clock w_init)
   \<and> loop_state_at (ex_searcher 0 [status 200 ''mab'']) (WithDeadline 50000000) ''raft'' 2 1 w_init =
       Some (2, [ex_repo CHR ''a'', ex_repo CHR ''b''], 2,
             \<lparr>calls = 1, clock = 100000000,
              trace = [Log (LogFetching 1 ''raft+''),
                       Do \<lparr>req_ctx = WithDeadline 50000000, req_method = ''GET'',
                          req_url = ''raft+'', req_header = []\<rparr>,
                       Close ''mab'', Sleep 100000000]\<rparr>)
   \<and> ctx_done (WithDeadline 50000000) 100000000"
  by (simp add: ex_defs)

section \<open>Claims on the provider adapters\<close>

text \<open>
  C9, as the code has it. For every provider adapter the URL that \<open>buildSearchURL\<close>
  returns is determined by the adapter, the arguments \<open>query\<close>, \<open>page\<close> and \<open>perPage\<close>, and
  the value of the environment variable \<open>GITCODE_LANG\<close>: two calls on the same adapter
  with the same arguments return the same URL (or the same error) whenever
  \<open>GITCODE_LANG\<close> has the same value at both calls, whatever else differs in the
  environment. Only the GitCode adapter reads the variable: for each of the other four
  adapters the two calls return the same URL in any two environments.
\<close>

theorem buildSearchURL_environment:
  "(Getenv1 ''GITCODE_LANG'' = Getenv2 ''GITCODE_LANG'' \<longrightarrow>
      adapter_buildSearchURL lib Getenv1 a query page perPage' =
      adapter_buildSearchURL lib Getenv2 a query page perPage')
   \<and> ((\<forall>g. a \<noteq> GitCode g) \<longrightarrow>
      adapter_buildSearchURL lib Getenv1 a query page perPage' =
      adapter_buildSearchURL lib Getenv2 a query page perPage')"
  by (cases a) (simp_all add: GitCodeSearcher_buildSearchURL_def Let_def split: sum.splits)

theorem buildSearchURL_environment_witness:
  "env_empty ''GITCODE_LANG'' = env_home ''GITCODE_LANG''
   \<and> env_empty ''HOME'' \<noteq> env_home ''HOME''
   \<and> adapter_buildSearchURL ex_lib env_home
        (GitCode (NewGitCodeSearcher (ex_adapter 0) ''token'' (scripted []))) ''raft'' 1 50 =
       Inr ''https://api.gitcode.com/api/v5/search/repositories?page=1&per_page=50&q=raft''
   \<and> env_empty ''GITCODE_LANG'' \<noteq> env_lang_go ''GITCODE_LANG''
   \<and> adapter_buildSearchURL ex_lib env_lang_go
        (GitLab (NewGitLabSearcher (ex_adapter 0) ''token'' (scripted []))) ''raft'' 1 50 =
       Inr ''https://gitlab.com/api/v4/projects?page=1&per_page=50&search=raft''"
proof -
  let ?c = "GitCode (NewGitCodeSearcher (ex_adapter 0) ''token'' (scripted []))"
  let ?l = "GitLab (NewGitLabSearcher (ex_adapter 0) ''token'' (scripted []))"
  have e: "env_empty ''GITCODE_LANG'' = env_home ''GITCODE_LANG''"
    by (simp add: env_empty_def env_home_def)
  have h: "env_empty ''HOME'' \<noteq> env_home ''HOME''"
    by (simp add: env_empty_def env_home_def)
  have d: "env_empty ''GITCODE_LANG'' \<noteq> env_lang_go ''GITCODE_LANG''"
    by (simp add: env_empty_def env_lang_go_def)
  have n: "\<forall>g. ?l \<noteq> GitCode g"
    by simp
  have v: "adapter_buildSearchURL ex_lib env_empty ?c ''raft'' 1 50 =
        Inr ''https://api.gitcode.com/api/v5/search/repositories?page=1&per_page=50&q=raft''"
    by code_simp
  have v': "adapter_buildSearchURL ex_lib env_empty ?l ''raft'' 1 50 =
        Inr ''https://gitlab.com/api/v4/projects?page=1&per_page=50&search=raft''"
    by code_simp
  have "adapter_buildSearchURL ex_lib env_empty ?c ''raft'' 1 50 =
        adapter_buildSearchURL ex_lib env_home ?c ''raft'' 1 50"
    using buildSearchURL_environment [of env_empty env_home ex_lib ?c "''raft''" 1 50] e
    by blast
  with v have first: "adapter_buildSearchURL ex_lib env_home ?c ''raft'' 1 50 =
        Inr ''https://api.gitcode.com/api/v5/search/repositories?page=1&per_page=50&q=raft''"
    by (simp only:)
  have "adapter_buildSearchURL ex_lib env_empty ?l ''raft'' 1 50 =
        adapter_buildSearchURL ex_lib env_lang_go ?l ''raft'' 1 50"
    using buildSearchURL_environment [of env_empty env_lang_go ex_lib ?l "''raft''" 1 50] n
    by blast
  with v' have second: "adapter_buildSearchURL ex_lib env_lang_go ?l ''raft'' 1 50 =
        Inr ''https://gitlab.com/api/v4/projects?page=1&per_page=50&search=raft''"
    by (simp only:)
  from e h d first second show ?thesis
    by (intro conjI)
qed

text \<open>
  The claim as it was stated fails for the GitCode adapter: the same searcher, called
  twice with the query \<open>raft\<close>, page 1 and 50 records per page, returns one URL when
  \<open>GITCODE_LANG\<close> is not set and another when it is set to \<open>go\<close>.
\<close>

theorem buildSearchURL_deterministic_counterexample:
  "adapter_buildSearchURL ex_lib env_empty
     (GitCode (NewGitCodeSearcher (ex_adapter 0) ''token'' (scripted []))) ''raft'' 1 50 =
     Inr ''https://api.gitcode.com/api/v5/search/repositories?page=1&per_page=50&q=raft''
   \<and> adapter_buildSearchURL ex_lib env_lang_go
       (GitCode (NewGitCodeSearcher (ex_adapter 0) ''token'' (scripted []))) ''raft'' 1 50 =
     Inr ''https://api.gitcode.com/api/v5/search/repositories?language=go&page=1&per_page=50&q=raft''
   \<and> adapter_buildSearchURL ex_lib env_empty
       (GitCode (NewGitCodeSearcher (ex_adapter 0) ''token'' (scripted []))) ''raft'' 1 50 \<noteq>
     adapter_buildSearchURL ex_lib env_lang_go
       (GitCode (NewGitCodeSearcher (ex_adapter 0) ''token'' (scripted []))) ''raft'' 1 50"
  by code_simp

end
